theory Spec2Isabelle
  imports Complex_Main "HOL-Library.Word" "HOL-Library.Sublist"
begin

text \<open>
  A model of the chip input: the handlers of the component \<open>ChipInput\<close>
  (\<open>presentation/components/ChipInput.tsx\<close>) as functions from the props and the state to
  the calls they make, and the clipboard serializer
  (\<open>application/serialization/ChipClipboardSerializer.ts\<close>) with the parts of the language
  it relies on: strings as UTF-16 code units, \<open>JSON.stringify\<close>, \<open>JSON.parse\<close>, exceptions
  and the console.
\<close>

unbundle bit_operations_syntax

section \<open>JavaScript strings and arrays\<close>

text \<open>
  A JavaScript string is a sequence of UTF-16 code units. String literals of the source are
  written \<open>lit ''...''\<close>.
\<close>

type_synonym jschar = "16 word"
type_synonym jsstring = "jschar list"

definition lit :: "string \<Rightarrow> jsstring" where
  "lit s = map of_char s"

text \<open>
  \<open>String.prototype.trim\<close> strips the code points of WhiteSpace and LineTerminator
  (ECMA-262, 12.2 and 12.3) from both ends: TAB, LF, VT, FF, CR, SP, NBSP, U+1680,
  U+2000 to U+200A, U+2028, U+2029, U+202F, U+205F, U+3000 and U+FEFF.
\<close>

definition is_white_space :: "jschar \<Rightarrow> bool" where
  "is_white_space c \<longleftrightarrow>
     c \<in> {0x09, 0x0A, 0x0B, 0x0C, 0x0D, 0x20, 0xA0, 0x1680, 0x2028, 0x2029, 0x202F,
          0x205F, 0x3000, 0xFEFF}
     \<or> (0x2000 \<le> c \<and> c \<le> 0x200A)"

definition trim :: "jsstring \<Rightarrow> jsstring" where
  "trim s = rev (dropWhile is_white_space (rev (dropWhile is_white_space s)))"

text \<open>
  \<open>Array.prototype.slice(start, end)\<close> and \<open>String.prototype.slice\<close>: a negative index
  counts from the end, both indices are clamped to the length, and an absent \<open>end\<close> is the
  length.
\<close>

definition slice_js :: "'a list \<Rightarrow> int \<Rightarrow> int option \<Rightarrow> 'a list" where
  "slice_js xs start end =
     (let len = int (length xs);
          k = (if start < 0 then max (len + start) 0 else min start len);
          final = (case end of
                     None \<Rightarrow> len
                   | Some e \<Rightarrow> if e < 0 then max (len + e) 0 else min e len)
      in take (nat (final - k)) (drop (nat k) xs))"

section \<open>The chip entity\<close>

text \<open>
  The interface \<open>Chip\<close>: \<open>id\<close> and \<open>label\<close> are strings, \<open>value\<close>, \<open>selected\<close> and
  \<open>disabled\<close> are optional (\<open>None\<close> is \<open>undefined\<close>). The fields \<open>id\<close> and \<open>value\<close> are
  named \<open>chip_id\<close> and \<open>chip_value\<close> here.
\<close>

record chip =
  chip_id :: jsstring
  label :: jsstring
  chip_value :: "jsstring option"
  selected :: "bool option"
  disabled :: "bool option"

text \<open>The truthiness of \<open>chip.selected\<close>: \<open>undefined\<close> and \<open>false\<close> are falsy.\<close>

definition is_selected :: "chip \<Rightarrow> bool" where
  "is_selected c \<longleftrightarrow> selected c = Some True"

section \<open>The component \<open>ChipInput\<close>\<close>

text \<open>
  The component is controlled: the chips are the prop \<open>value\<close>, the typed text is the state
  \<open>inputValue\<close>. A handler changes neither; it calls \<open>onChange\<close> with a new array, calls
  \<open>setInputValue\<close>, and moves the focus to the input. These calls are the handler's result.
\<close>

record effects =
  onChange :: "chip list option"
  setInputValue :: "jsstring option"
  focus :: bool

definition no_effects :: effects where
  "no_effects = \<lparr>onChange = None, setInputValue = None, focus = False\<rparr>"

text \<open>What a host that adopts every \<open>onChange\<close> holds after a handler, and the typed text then.\<close>

definition next_value :: "chip list \<Rightarrow> effects \<Rightarrow> chip list" where
  "next_value v e = (case onChange e of None \<Rightarrow> v | Some v' \<Rightarrow> v')"

definition next_inputValue :: "jsstring \<Rightarrow> effects \<Rightarrow> jsstring" where
  "next_inputValue s e = (case setInputValue e of None \<Rightarrow> s | Some s' \<Rightarrow> s')"

definition selectedChips :: "chip list \<Rightarrow> chip list" where
  "selectedChips v = filter is_selected v"

definition selectAllChips :: "chip list \<Rightarrow> effects" where
  "selectAllChips v =
     no_effects\<lparr>onChange := Some (map (\<lambda>c. c\<lparr>selected := Some True\<rparr>) v)\<rparr>"

definition clearSelection :: "chip list \<Rightarrow> effects" where
  "clearSelection v =
     (if length (selectedChips v) = 0 then no_effects
      else no_effects\<lparr>onChange := Some (map (\<lambda>c. c\<lparr>selected := Some False\<rparr>) v)\<rparr>)"

definition toggleChipSelection :: "chip list \<Rightarrow> jsstring \<Rightarrow> bool \<Rightarrow> effects" where
  "toggleChipSelection v chipId multiSelect =
     no_effects\<lparr>onChange := Some (map (\<lambda>c.
        if chip_id c = chipId then c\<lparr>selected := Some (\<not> is_selected c)\<rparr>
        else if multiSelect then c else c\<lparr>selected := Some False\<rparr>) v)\<rparr>"

definition removeChips :: "chip list \<Rightarrow> jsstring \<Rightarrow> effects" where
  "removeChips v inputValue =
     (if length (selectedChips v) > 0 then
        no_effects\<lparr>onChange := Some (filter (\<lambda>c. \<not> is_selected c) v), focus := True\<rparr>
      else if length v > 0 \<and> inputValue = [] then
        no_effects\<lparr>onChange := Some (slice_js v 0 (Some (- 1))), focus := True\<rparr>
      else no_effects)"

definition createChipFromInput ::
  "chip list \<Rightarrow> jsstring \<Rightarrow> (jsstring \<Rightarrow> chip option) option \<Rightarrow> effects" where
  "createChipFromInput v inputValue onAdd =
     (let trimmedValue = trim inputValue in
      if trimmedValue = [] then no_effects
      else (case onAdd of
              None \<Rightarrow> no_effects
            | Some add \<Rightarrow>
                (case add trimmedValue of
                   None \<Rightarrow> no_effects
                 | Some newChip \<Rightarrow>
                     \<lparr>onChange = Some (map (\<lambda>c. c\<lparr>selected := Some False\<rparr>) v @ [newChip]),
                      setInputValue = Some [], focus = True\<rparr>)))"

definition handlePaste ::
  "chip list \<Rightarrow> (jsstring \<Rightarrow> chip list option) option \<Rightarrow> jsstring \<Rightarrow> effects" where
  "handlePaste v onPaste clipboardData =
     (case onPaste of
        None \<Rightarrow> no_effects
      | Some paste \<Rightarrow>
          (case paste clipboardData of
             None \<Rightarrow> no_effects
           | Some newChips \<Rightarrow>
               if length newChips > 0 then
                 \<lparr>onChange = Some (map (\<lambda>c. c\<lparr>selected := Some False\<rparr>) v @ newChips),
                  setInputValue = Some [], focus = False\<rparr>
               else no_effects))"

definition handleInputChange ::
  "chip list \<Rightarrow> jsstring list \<Rightarrow> (jsstring \<Rightarrow> chip option) option \<Rightarrow> jsstring \<Rightarrow> effects" where
  "handleInputChange v separators onAdd newValue =
     (case onAdd of
        Some add \<Rightarrow>
          if length separators > 0 \<and> newValue \<noteq> [] \<and> [last newValue] \<in> set separators then
            (let textWithoutSeparator = trim (slice_js newValue 0 (Some (- 1))) in
             if textWithoutSeparator \<noteq> [] then
               (case add textWithoutSeparator of
                  Some newChip \<Rightarrow>
                    \<lparr>onChange = Some (map (\<lambda>c. c\<lparr>selected := Some False\<rparr>) v @ [newChip]),
                     setInputValue = Some [], focus = False\<rparr>
                | None \<Rightarrow> no_effects\<lparr>setInputValue := Some []\<rparr>)
             else no_effects\<lparr>setInputValue := Some []\<rparr>)
          else no_effects\<lparr>setInputValue := Some newValue\<rparr>
      | None \<Rightarrow> no_effects\<lparr>setInputValue := Some newValue\<rparr>)"

section \<open>JSON\<close>

text \<open>
  The values of JavaScript that \<open>JSON.parse\<close> builds, and \<open>undefined\<close>, which a property
  read yields. A number carries the exact value of its literal; an object carries its
  members in source order, duplicates included.
\<close>

datatype jsval =
    JUndefined
  | JNull
  | JBool bool
  | JNum rat
  | JStr jsstring
  | JArr "jsval list"
  | JObj "(jsstring \<times> jsval) list"

text \<open>An exception is a value: \<open>Inl\<close> is a throw, \<open>Inr\<close> a normal completion.\<close>

datatype js_error = SyntaxError | TypeError

type_synonym 'a js = "js_error + 'a"

definition try_catch :: "'a js \<Rightarrow> (js_error \<Rightarrow> 'a js) \<Rightarrow> 'a js" where
  "try_catch body handler = (case body of Inl error \<Rightarrow> handler error | Inr r \<Rightarrow> Inr r)"

subsection \<open>\<open>JSON.parse\<close>\<close>

text \<open>
  The grammar of ECMA-404, on code units: white space is TAB, LF, CR and SP; a string holds
  no raw control character, and a backslash in it is followed by one of \<open>" / b f n r t\<close>, by
  another backslash, or by \<open>u\<close> and four hexadecimal digits; a number is
  \<open>-? (0 | [1-9][0-9]*) (. [0-9]+)? ([eE] [+-]? [0-9]+)?\<close>. Each parser returns the value
  and the rest of the text, or \<open>None\<close> where \<open>JSON.parse\<close> throws a SyntaxError.
\<close>

definition is_json_ws :: "jschar \<Rightarrow> bool" where
  "is_json_ws c \<longleftrightarrow> c = 0x09 \<or> c = 0x0A \<or> c = 0x0D \<or> c = 0x20"

definition skip_ws :: "jsstring \<Rightarrow> jsstring" where
  "skip_ws = dropWhile is_json_ws"

definition is_digit :: "jschar \<Rightarrow> bool" where
  "is_digit c \<longleftrightarrow> 0x30 \<le> c \<and> c \<le> 0x39"

definition digits_value :: "jsstring \<Rightarrow> nat" where
  "digits_value ds = foldl (\<lambda>a d. 10 * a + (unat d - 0x30)) 0 ds"

definition hex_value :: "jschar \<Rightarrow> nat option" where
  "hex_value c =
     (if 0x30 \<le> c \<and> c \<le> 0x39 then Some (unat c - 0x30)
      else if 0x61 \<le> c \<and> c \<le> 0x66 then Some (unat c - 0x61 + 10)
      else if 0x41 \<le> c \<and> c \<le> 0x46 then Some (unat c - 0x41 + 10)
      else None)"

text \<open>The code unit that a short escape stands for.\<close>

definition escape_value :: "jschar \<Rightarrow> jschar option" where
  "escape_value e =
     (if e = 0x22 then Some 0x22
      else if e = 0x2F then Some 0x2F
      else if e = 0x5C then Some 0x5C
      else if e = 0x62 then Some 0x08
      else if e = 0x66 then Some 0x0C
      else if e = 0x6E then Some 0x0A
      else if e = 0x72 then Some 0x0D
      else if e = 0x74 then Some 0x09
      else None)"

text \<open>The characters of a string up to its closing quote, the opening quote already read.\<close>

fun parse_string_chars :: "jsstring \<Rightarrow> (jsstring \<times> jsstring) option" where
  "parse_string_chars [] = None"
| "parse_string_chars (c # cs) =
     (if c = 0x22 then Some ([], cs)
      else if c = 0x5C then
        (case cs of
           [] \<Rightarrow> None
         | e # es \<Rightarrow>
             if e = 0x75 then
               (case es of
                  h1 # h2 # h3 # h4 # r \<Rightarrow>
                    (case (hex_value h1, hex_value h2, hex_value h3, hex_value h4) of
                       (Some a, Some b, Some c, Some d) \<Rightarrow>
                         map_option (apfst ((#) (of_nat (((a * 16 + b) * 16 + c) * 16 + d))))
                           (parse_string_chars r)
                     | _ \<Rightarrow> None)
                | _ \<Rightarrow> None)
             else
               (case escape_value e of
                  None \<Rightarrow> None
                | Some x \<Rightarrow> map_option (apfst ((#) x)) (parse_string_chars es)))
      else if c < 0x20 then None
      else map_option (apfst ((#) c)) (parse_string_chars cs))"

definition parse_int :: "jsstring \<Rightarrow> (jsstring \<times> jsstring) option" where
  "parse_int cs =
     (case cs of
        [] \<Rightarrow> None
      | d # r \<Rightarrow>
          if \<not> is_digit d then None
          else if d = 0x30 then Some ([d], r)
          else Some (takeWhile is_digit cs, dropWhile is_digit cs))"

definition parse_frac :: "jsstring \<Rightarrow> (jsstring \<times> jsstring) option" where
  "parse_frac cs =
     (case cs of
        [] \<Rightarrow> Some ([], cs)
      | p # r \<Rightarrow>
          if p = 0x2E then
            (if takeWhile is_digit r = [] then None
             else Some (takeWhile is_digit r, dropWhile is_digit r))
          else Some ([], cs))"

definition parse_sign :: "jsstring \<Rightarrow> bool \<times> jsstring" where
  "parse_sign cs =
     (case cs of
        [] \<Rightarrow> (False, cs)
      | s # r \<Rightarrow>
          if s = 0x2D then (True, r) else if s = 0x2B then (False, r) else (False, cs))"

definition parse_exp :: "jsstring \<Rightarrow> (int \<times> jsstring) option" where
  "parse_exp cs =
     (case cs of
        [] \<Rightarrow> Some (0, cs)
      | x # r \<Rightarrow>
          if x = 0x65 \<or> x = 0x45 then
            (case parse_sign r of
               (neg, r') \<Rightarrow>
                 if takeWhile is_digit r' = [] then None
                 else Some ((if neg then - 1 else 1) * int (digits_value (takeWhile is_digit r')),
                            dropWhile is_digit r'))
          else Some (0, cs))"

definition pow10 :: "int \<Rightarrow> rat" where
  "pow10 e = (if e < 0 then 1 / 10 ^ nat (- e) else 10 ^ nat e)"

definition parse_number :: "jsstring \<Rightarrow> (rat \<times> jsstring) option" where
  "parse_number cs =
     (case (case cs of
              [] \<Rightarrow> (False, cs)
            | c # r \<Rightarrow> if c = 0x2D then (True, r) else (False, cs)) of
        (neg, cs1) \<Rightarrow>
          (case parse_int cs1 of
             None \<Rightarrow> None
           | Some (ip, cs2) \<Rightarrow>
               (case parse_frac cs2 of
                  None \<Rightarrow> None
                | Some (fp, cs3) \<Rightarrow>
                    (case parse_exp cs3 of
                       None \<Rightarrow> None
                     | Some (e, cs4) \<Rightarrow>
                         Some ((if neg then - 1 else 1)
                                 * (of_int (int (digits_value (ip @ fp))) / 10 ^ length fp)
                                 * pow10 e, cs4)))))"

text \<open>
  A value; the elements of an array after \<open>[\<close>, up to \<open>]\<close>; the members of an object after
  \<open>{\<close>, up to \<open>}\<close>. The recursion follows the rest that the inner call returns: it ends
  because every parser consumes at least one code unit (see the termination proof below).
\<close>

function parse_value :: "jsstring \<Rightarrow> (jsval \<times> jsstring) option"
  and parse_elements :: "jsstring \<Rightarrow> (jsval list \<times> jsstring) option"
  and parse_members :: "jsstring \<Rightarrow> ((jsstring \<times> jsval) list \<times> jsstring) option"
where
  "parse_value [] = None"
| "parse_value (c # r) =
     (if c = 0x7B then
        (case skip_ws r of
           [] \<Rightarrow> None
         | d # r' \<Rightarrow>
             if d = 0x7D then Some (JObj [], r')
             else map_option (apfst JObj) (parse_members (d # r')))
      else if c = 0x5B then
        (case skip_ws r of
           [] \<Rightarrow> None
         | d # r' \<Rightarrow>
             if d = 0x5D then Some (JArr [], r')
             else map_option (apfst JArr) (parse_elements (d # r')))
      else if c = 0x22 then map_option (apfst JStr) (parse_string_chars r)
      else if prefix (lit ''null'') (c # r) then Some (JNull, drop 4 (c # r))
      else if prefix (lit ''true'') (c # r) then Some (JBool True, drop 4 (c # r))
      else if prefix (lit ''false'') (c # r) then Some (JBool False, drop 5 (c # r))
      else map_option (apfst JNum) (parse_number (c # r)))"
| "parse_elements cs =
     (case parse_value cs of
        None \<Rightarrow> None
      | Some (v, r) \<Rightarrow>
          (case skip_ws r of
             [] \<Rightarrow> None
           | d # r' \<Rightarrow>
               if d = 0x5D then Some ([v], r')
               else if d = 0x2C then
                 map_option (apfst ((#) v)) (parse_elements (skip_ws r'))
               else None))"
| "parse_members [] = None"
| "parse_members (c # r) =
     (if c \<noteq> 0x22 then None
      else
        (case parse_string_chars r of
           None \<Rightarrow> None
         | Some (k, r1) \<Rightarrow>
             (case skip_ws r1 of
                [] \<Rightarrow> None
              | d # r2 \<Rightarrow>
                  if d \<noteq> 0x3A then None
                  else
                    (case parse_value (skip_ws r2) of
                       None \<Rightarrow> None
                     | Some (v, r3) \<Rightarrow>
                         (case skip_ws r3 of
                            [] \<Rightarrow> None
                          | e # r4 \<Rightarrow>
                              if e = 0x7D then Some ([(k, v)], r4)
                              else if e = 0x2C then
                                map_option (apfst ((#) (k, v))) (parse_members (skip_ws r4))
                              else None)))))"
  by pat_completeness auto

text \<open>The whole text is one value between white space.\<close>

definition JSON_parse :: "jsstring \<Rightarrow> jsval js" where
  "JSON_parse text =
     (case parse_value (skip_ws text) of
        None \<Rightarrow> Inl SyntaxError
      | Some (v, r) \<Rightarrow> if skip_ws r = [] then Inr v else Inl SyntaxError)"

subsection \<open>\<open>JSON.stringify\<close>\<close>

text \<open>
  QuoteJSONString (ECMA-262, 25.5.2.3): the short escapes for backspace, tab, line feed, form
  feed, carriage return, the quote and the backslash; the escape with \<open>u\<close> and four lower-case
  hexadecimal digits for the other control characters and for a surrogate without its
  partner; a surrogate pair and every other code unit stay as they are.
\<close>

definition hex_digit :: "nat \<Rightarrow> jschar" where
  "hex_digit n = (if n < 10 then 0x30 + of_nat n else 0x61 + of_nat (n - 10))"

definition unicode_escape :: "jschar \<Rightarrow> jsstring" where
  "unicode_escape c =
     [0x5C, 0x75, hex_digit (unat c div 4096), hex_digit (unat c div 256 mod 16),
      hex_digit (unat c div 16 mod 16), hex_digit (unat c mod 16)]"

definition is_leading_surrogate :: "jschar \<Rightarrow> bool" where
  "is_leading_surrogate c \<longleftrightarrow> 0xD800 \<le> c \<and> c \<le> 0xDBFF"

definition is_trailing_surrogate :: "jschar \<Rightarrow> bool" where
  "is_trailing_surrogate c \<longleftrightarrow> 0xDC00 \<le> c \<and> c \<le> 0xDFFF"

fun quote_chars :: "jsstring \<Rightarrow> jsstring" where
  "quote_chars [] = []"
| "quote_chars (c # cs) =
     (if c = 0x08 then [0x5C, 0x62] @ quote_chars cs
      else if c = 0x09 then [0x5C, 0x74] @ quote_chars cs
      else if c = 0x0A then [0x5C, 0x6E] @ quote_chars cs
      else if c = 0x0C then [0x5C, 0x66] @ quote_chars cs
      else if c = 0x0D then [0x5C, 0x72] @ quote_chars cs
      else if c = 0x22 then [0x5C, 0x22] @ quote_chars cs
      else if c = 0x5C then [0x5C, 0x5C] @ quote_chars cs
      else if c < 0x20 then unicode_escape c @ quote_chars cs
      else if is_leading_surrogate c then
        (case cs of
           [] \<Rightarrow> unicode_escape c
         | d # ds \<Rightarrow>
             if is_trailing_surrogate d then c # d # quote_chars ds
             else unicode_escape c @ quote_chars cs)
      else if is_trailing_surrogate c then unicode_escape c @ quote_chars cs
      else c # quote_chars cs)"

definition QuoteJSONString :: "jsstring \<Rightarrow> jsstring" where
  "QuoteJSONString s = [0x22] @ quote_chars s @ [0x22]"

text \<open>\<open>Array.prototype.join\<close>, and the decimal digits of a natural number.\<close>

fun join :: "'a list \<Rightarrow> 'a list list \<Rightarrow> 'a list" where
  "join sep [] = []"
| "join sep [x] = x"
| "join sep (x # y # ys) = x @ sep @ join sep (y # ys)"

fun Number_toString :: "nat \<Rightarrow> jsstring" where
  "Number_toString n =
     (if n < 10 then [0x30 + of_nat n]
      else Number_toString (n div 10) @ [0x30 + of_nat (n mod 10)])"

text \<open>
  \<open>JSON.stringify\<close> is applied to one type only, the interface \<open>SerializedChipData\<close>: an
  object with the keys \<open>version\<close> and \<open>chips\<close>, each chip an object with the keys \<open>id\<close>,
  \<open>label\<close> and, unless it is \<open>undefined\<close>, \<open>value\<close>. Members are written in the order of the
  object literal, without white space.
\<close>

record serialized_chip =
  sc_id :: jsstring
  sc_label :: jsstring
  sc_value :: "jsstring option"

record SerializedChipData =
  sd_version :: nat
  sd_chips :: "serialized_chip list"

definition stringify_chip :: "serialized_chip \<Rightarrow> jsstring" where
  "stringify_chip c =
     lit ''{'' @ QuoteJSONString (lit ''id'') @ lit '':'' @ QuoteJSONString (sc_id c)
     @ lit '','' @ QuoteJSONString (lit ''label'') @ lit '':'' @ QuoteJSONString (sc_label c)
     @ (case sc_value c of
          None \<Rightarrow> []
        | Some v \<Rightarrow> lit '','' @ QuoteJSONString (lit ''value'') @ lit '':'' @ QuoteJSONString v)
     @ lit ''}''"

definition JSON_stringify :: "SerializedChipData \<Rightarrow> jsstring" where
  "JSON_stringify data =
     lit ''{'' @ QuoteJSONString (lit ''version'') @ lit '':'' @ Number_toString (sd_version data)
     @ lit '','' @ QuoteJSONString (lit ''chips'') @ lit '':''
     @ lit ''['' @ join (lit '','') (map stringify_chip (sd_chips data)) @ lit '']''
     @ lit ''}''"

section \<open>The clipboard serializer\<close>

definition CLIPBOARD_MARKER :: jsstring where
  "CLIPBOARD_MARKER = lit ''__CHIPINPUT__:''"

definition CLIPBOARD_VERSION :: nat where
  "CLIPBOARD_VERSION = 1"

text \<open>The arrow function of \<open>serialize\<close>: only id, label and value are kept.\<close>

definition cleanChip :: "chip \<Rightarrow> serialized_chip" where
  "cleanChip chip = \<lparr>sc_id = chip_id chip, sc_label = label chip, sc_value = chip_value chip\<rparr>"

definition serialize :: "chip list \<Rightarrow> jsstring" where
  "serialize chips =
     (let cleanChips = map cleanChip chips;
          data = \<lparr>sd_version = CLIPBOARD_VERSION, sd_chips = cleanChips\<rparr>
      in CLIPBOARD_MARKER @ JSON_stringify data)"

text \<open>
  What \<open>deserialize\<close> returns is typed \<open>Chip[]\<close>, but the cast of the parsed data is not
  checked: the label and the value of a returned chip are whatever the payload holds.
\<close>

record pasted_chip =
  pc_id :: jsstring
  pc_label :: jsval
  pc_value :: jsval
  pc_selected :: bool
  pc_disabled :: bool

text \<open>
  The console: \<open>console.warn\<close> of the unsupported version, with the version it found, and
  \<open>console.error\<close> of the caught exception. The version is carried as the value of the
  literal in the payload; the message shows the Number of that literal, the double nearest to
  it.
\<close>

datatype console = Warn_UnsupportedVersion jsval | Error_FailedToParse js_error

text \<open>
  The Number of a literal is the double nearest to its value, ties to even. It is zero
  exactly for the values of magnitude at most \<open>1 / 2 ^ 1075\<close>, and it is
  \<open>CLIPBOARD_VERSION\<close>, that is 1, exactly for the values from \<open>1 - 1 / 2 ^ 54\<close> to
  \<open>1 + 1 / 2 ^ 53\<close>.
\<close>

definition number_is_zero :: "rat \<Rightarrow> bool" where
  "number_is_zero x \<longleftrightarrow> \<bar>x\<bar> \<le> 1 / 2 ^ 1075"

definition is_CLIPBOARD_VERSION :: "rat \<Rightarrow> bool" where
  "is_CLIPBOARD_VERSION x \<longleftrightarrow> 1 - 1 / 2 ^ 54 \<le> x \<and> x \<le> 1 + 1 / 2 ^ 53"

text \<open>ToBoolean, as \<open>!data\<close> uses it.\<close>

definition truthy :: "jsval \<Rightarrow> bool" where
  "truthy v =
     (case v of
        JUndefined \<Rightarrow> False
      | JNull \<Rightarrow> False
      | JBool b \<Rightarrow> b
      | JNum x \<Rightarrow> \<not> number_is_zero x
      | JStr s \<Rightarrow> s \<noteq> []
      | JArr _ \<Rightarrow> True
      | JObj _ \<Rightarrow> True)"

text \<open>
  A property read, for the keys \<open>version\<close>, \<open>chips\<close>, \<open>label\<close> and \<open>value\<close>, which no
  prototype defines: it throws on \<open>null\<close> and \<open>undefined\<close>, finds the last member of that name
  in an object, and is \<open>undefined\<close> on everything else.
\<close>

definition get_property :: "jsval \<Rightarrow> jsstring \<Rightarrow> jsval js" where
  "get_property v key =
     (case v of
        JUndefined \<Rightarrow> Inl TypeError
      | JNull \<Rightarrow> Inl TypeError
      | JObj members \<Rightarrow>
          Inr (case map_of (rev members) key of None \<Rightarrow> JUndefined | Some x \<Rightarrow> x)
      | _ \<Rightarrow> Inr JUndefined)"

text \<open>
  \<open>data.chips.map(...)\<close> of \<open>deserializeChipInputFormat\<close>. The identifiers come from
  \<open>crypto.randomUUID()\<close>: \<open>randomUUID n\<close> is what its call number \<open>n\<close> returns.
\<close>

fun reconstruct :: "(nat \<Rightarrow> jsstring) \<Rightarrow> nat \<Rightarrow> jsval list \<Rightarrow> pasted_chip list js" where
  "reconstruct randomUUID n [] = Inr []"
| "reconstruct randomUUID n (chipData # rest) =
     (case get_property chipData (lit ''label'') of
        Inl error \<Rightarrow> Inl error
      | Inr l \<Rightarrow>
          (case get_property chipData (lit ''value'') of
             Inl error \<Rightarrow> Inl error
           | Inr v \<Rightarrow>
               (case reconstruct randomUUID (Suc n) rest of
                  Inl error \<Rightarrow> Inl error
                | Inr chips \<Rightarrow>
                    Inr (\<lparr>pc_id = randomUUID n, pc_label = l,
                          pc_value = (if v = JUndefined \<or> v = JNull then l else v),
                          pc_selected = False, pc_disabled = False\<rparr> # chips))))"

text \<open>
  The result of the three functions is the returned value (\<open>None\<close> is \<open>null\<close>) and what was
  written to the console.
\<close>

definition deserializeChipInputFormat ::
  "(nat \<Rightarrow> jsstring) \<Rightarrow> jsstring \<Rightarrow> (pasted_chip list option \<times> console list) js" where
  "deserializeChipInputFormat randomUUID clipboardData =
     try_catch
       (let jsonString = slice_js clipboardData (int (length CLIPBOARD_MARKER)) None in
        case JSON_parse jsonString of
          Inl error \<Rightarrow> Inl error
        | Inr data \<Rightarrow>
            if \<not> truthy data then Inr (None, [])
            else
              (case get_property data (lit ''version'') of
                 Inl error \<Rightarrow> Inl error
               | Inr version \<Rightarrow>
                   (case version of
                      JNum x \<Rightarrow>
                        (case get_property data (lit ''chips'') of
                           Inl error \<Rightarrow> Inl error
                         | Inr chips \<Rightarrow>
                             (case chips of
                                JArr elements \<Rightarrow>
                                  if \<not> is_CLIPBOARD_VERSION x then
                                    Inr (None, [Warn_UnsupportedVersion version])
                                  else
                                    (case reconstruct randomUUID 0 elements of
                                       Inl error \<Rightarrow> Inl error
                                     | Inr result \<Rightarrow> Inr (Some result, []))
                              | _ \<Rightarrow> Inr (None, [])))
                    | _ \<Rightarrow> Inr (None, []))))
       (\<lambda>error. Inr (None, [Error_FailedToParse error]))"

text \<open>\<open>String.prototype.split\<close> with a separator of one code unit.\<close>

fun split_on :: "jschar \<Rightarrow> jsstring \<Rightarrow> jsstring list" where
  "split_on sep [] = [[]]"
| "split_on sep (c # cs) =
     (if c = sep then [] # split_on sep cs
      else (case split_on sep cs of
              [] \<Rightarrow> [[c]]
            | seg # segs \<Rightarrow> (c # seg) # segs))"

definition deserializePlainTextFallback ::
  "(nat \<Rightarrow> jsstring) \<Rightarrow> jsstring \<Rightarrow> (pasted_chip list option \<times> console list) js" where
  "deserializePlainTextFallback randomUUID clipboardData =
     try_catch
       (let labels = filter (\<lambda>l. length l > 0) (map trim (split_on 0x2C clipboardData)) in
        if length labels = 0 then Inr (None, [])
        else Inr (Some (map (\<lambda>(n, l). \<lparr>pc_id = randomUUID n, pc_label = JStr l,
                                        pc_value = JStr l, pc_selected = False,
                                        pc_disabled = False\<rparr>)
                          (enumerate 0 labels)), []))
       (\<lambda>error. Inr (None, []))"

definition deserialize ::
  "(nat \<Rightarrow> jsstring) \<Rightarrow> jsstring \<Rightarrow> (pasted_chip list option \<times> console list) js" where
  "deserialize randomUUID clipboardData =
     (if prefix CLIPBOARD_MARKER clipboardData then
        deserializeChipInputFormat randomUUID clipboardData
      else deserializePlainTextFallback randomUUID clipboardData)"

section \<open>Notions used in the statements\<close>

text \<open>A chip with its selection flag erased: everything an operation must leave alone.\<close>

definition erase_selected :: "chip \<Rightarrow> chip" where
  "erase_selected c = c\<lparr>selected := None\<rparr>"

text \<open>The chips of the test suites: \<open>createChip('React', { id: '1' })\<close> and so on.\<close>

definition mockChips :: "chip list" where
  "mockChips =
     [\<lparr>chip_id = lit ''1'', label = lit ''React'', chip_value = Some (lit ''React''),
       selected = Some False, disabled = Some False\<rparr>,
      \<lparr>chip_id = lit ''2'', label = lit ''TypeScript'', chip_value = Some (lit ''TypeScript''),
       selected = Some False, disabled = Some False\<rparr>,
      \<lparr>chip_id = lit ''3'', label = lit ''Vite'', chip_value = Some (lit ''Vite''),
       selected = Some False, disabled = Some False\<rparr>]"

text \<open>The values that the output of \<open>JSON_stringify\<close> denotes.\<close>

definition chip_jsval :: "serialized_chip \<Rightarrow> jsval" where
  "chip_jsval c =
     JObj ([(lit ''id'', JStr (sc_id c)), (lit ''label'', JStr (sc_label c))]
           @ (case sc_value c of None \<Rightarrow> [] | Some v \<Rightarrow> [(lit ''value'', JStr v)]))"

definition data_jsval :: "SerializedChipData \<Rightarrow> jsval" where
  "data_jsval data =
     JObj [(lit ''version'', JNum (of_nat (sd_version data))),
           (lit ''chips'', JArr (map chip_jsval (sd_chips data)))]"

text \<open>The chip that \<open>deserialize\<close> builds from a label and a value that are strings.\<close>

definition pasted :: "(nat \<Rightarrow> jsstring) \<Rightarrow> nat \<Rightarrow> jsstring \<Rightarrow> jsstring \<Rightarrow> pasted_chip" where
  "pasted randomUUID n l v =
     \<lparr>pc_id = randomUUID n, pc_label = JStr l, pc_value = JStr v,
      pc_selected = False, pc_disabled = False\<rparr>"

text \<open>The payload of a marked text: what follows the marker.\<close>

definition payload :: "jsstring \<Rightarrow> jsstring" where
  "payload s = slice_js s (int (length CLIPBOARD_MARKER)) None"

text \<open>The labels that the plain-text fallback finds in a text.\<close>

definition fallback_labels :: "jsstring \<Rightarrow> jsstring list" where
  "fallback_labels s = filter (\<lambda>l. l \<noteq> []) (map trim (split_on 0x2C s))"

text \<open>
  The shape that \<open>deserializeChipInputFormat\<close> expects of the parsed payload: a truthy value
  whose \<open>version\<close> is a number and whose \<open>chips\<close> is an array.
\<close>

definition expected_shape :: "jsval \<Rightarrow> rat \<Rightarrow> jsval list \<Rightarrow> bool" where
  "expected_shape data x elements \<longleftrightarrow>
     truthy data \<and> get_property data (lit ''version'') = Inr (JNum x) \<and>
     get_property data (lit ''chips'') = Inr (JArr elements)"

text \<open>
  What the caller of \<open>deserialize\<close> receives, the returned value, and what only the console
  receives.
\<close>

definition returned :: "('a \<times> console list) js \<Rightarrow> 'a js" where
  "returned r = (case r of Inl error \<Rightarrow> Inl error | Inr (result, written) \<Rightarrow> Inr result)"

definition logged :: "('a \<times> console list) js \<Rightarrow> console list js" where
  "logged r = (case r of Inl error \<Rightarrow> Inl error | Inr (result, written) \<Rightarrow> Inr written)"

text \<open>A supply of identifiers for the examples: \<open>uuid-0\<close>, \<open>uuid-1\<close>, and so on.\<close>

definition uuids :: "nat \<Rightarrow> jsstring" where
  "uuids n = lit ''uuid-'' @ Number_toString n"

section \<open>Properties of the component\<close>

lemma slice_butlast: "slice_js xs 0 (Some (- 1)) = butlast xs"
  by (cases "xs = []") (simp_all add: slice_js_def Let_def butlast_conv_take nat_diff_distrib')

lemma erase_selected_update [simp]: "erase_selected (c\<lparr>selected := b\<rparr>) = erase_selected c"
  by (simp add: erase_selected_def)

subsection \<open>Single selection\<close>

lemma toggle_single_nth:
  assumes "i < length L"
  shows "erase_selected (next_value L (toggleChipSelection L t False) ! i) = erase_selected (L ! i)"
    and "is_selected (next_value L (toggleChipSelection L t False) ! i) \<longleftrightarrow>
           chip_id (L ! i) = t \<and> \<not> is_selected (L ! i)"
  using assms
  by (simp_all add: toggleChipSelection_def next_value_def no_effects_def is_selected_def)

lemma filter_distinct_id:
  "distinct (map chip_id L) \<Longrightarrow> c \<in> set L \<Longrightarrow> filter (\<lambda>x. chip_id x = chip_id c) L = [c]"
proof (induction L)
  case Nil
  then show ?case by simp
next
  case (Cons a L)
  show ?case
  proof (cases "a = c")
    case True
    with Cons.prems have "filter (\<lambda>x. chip_id x = chip_id c) L = []"
      by (auto simp: filter_empty_conv image_iff)
    with True show ?thesis by simp
  next
    case False
    with Cons.prems have "c \<in> set L" "chip_id a \<noteq> chip_id c" by auto
    with Cons show ?thesis by simp
  qed
qed

lemma toggle_single_selected:
  "selectedChips (next_value L (toggleChipSelection L t False)) =
     map (\<lambda>c. c\<lparr>selected := Some True\<rparr>) (filter (\<lambda>c. chip_id c = t \<and> \<not> is_selected c) L)"
  by (induction L)
    (auto simp: toggleChipSelection_def next_value_def no_effects_def selectedChips_def
      is_selected_def)

text \<open>
  Claim C3, as stated: for a target id present in the list, a toggle in single-select mode
  leaves exactly one selected token. It fails when the target was selected before: the flag
  is inverted, so the target is deselected like every other token and no token is selected.
  With all three test chips selected, a click on chip \<open>1\<close> leaves none selected.
\<close>

theorem toggle_single_counterexample:
  "lit ''1'' \<in> chip_id ` set (map (\<lambda>c. c\<lparr>selected := Some True\<rparr>) mockChips) \<and>
   length (selectedChips (next_value (map (\<lambda>c. c\<lparr>selected := Some True\<rparr>) mockChips)
     (toggleChipSelection (map (\<lambda>c. c\<lparr>selected := Some True\<rparr>) mockChips) (lit ''1'') False))) \<noteq> 1"
  by (simp add: mockChips_def toggleChipSelection_def next_value_def no_effects_def
      selectedChips_def is_selected_def lit_def)

text \<open>
  Claim C3, amended: a toggle in single-select mode keeps the length and every field but
  \<open>selected\<close> of every token; afterwards a token is selected exactly if its id is the target
  and it was not selected before (the target is inverted, all others are deselected,
  whatever the prior selection). So when the ids are distinct and the target is present, the
  selected tokens are the target alone if it was not selected before, and none if it was.
\<close>

theorem toggle_single:
  "length (next_value L (toggleChipSelection L t False)) = length L \<and>
   (\<forall>i < length L.
      erase_selected (next_value L (toggleChipSelection L t False) ! i) = erase_selected (L ! i) \<and>
      (is_selected (next_value L (toggleChipSelection L t False) ! i) \<longleftrightarrow>
         chip_id (L ! i) = t \<and> \<not> is_selected (L ! i))) \<and>
   (distinct (map chip_id L) \<longrightarrow> (\<forall>c \<in> set L. chip_id c = t \<longrightarrow>
      selectedChips (next_value L (toggleChipSelection L t False)) =
        (if is_selected c then [] else [c\<lparr>selected := Some True\<rparr>])))"
proof (intro conjI allI impI ballI)
  show "length (next_value L (toggleChipSelection L t False)) = length L"
    by (simp add: toggleChipSelection_def next_value_def no_effects_def)
next
  fix i assume "i < length L"
  then show "erase_selected (next_value L (toggleChipSelection L t False) ! i) =
      erase_selected (L ! i)"
    by (rule toggle_single_nth)
next
  fix i assume "i < length L"
  then show "is_selected (next_value L (toggleChipSelection L t False) ! i) \<longleftrightarrow>
      chip_id (L ! i) = t \<and> \<not> is_selected (L ! i)"
    by (rule toggle_single_nth)
next
  fix c assume d: "distinct (map chip_id L)" and c: "c \<in> set L" "chip_id c = t"
  have "filter (\<lambda>x. chip_id x = t \<and> \<not> is_selected x) L
        = filter (\<lambda>x. \<not> is_selected x) (filter (\<lambda>x. chip_id x = chip_id c) L)"
    using c by (simp add: conj_commute)
  also have "\<dots> = filter (\<lambda>x. \<not> is_selected x) [c]"
    using filter_distinct_id [OF d c(1)] by simp
  finally show "selectedChips (next_value L (toggleChipSelection L t False)) =
        (if is_selected c then [] else [c\<lparr>selected := Some True\<rparr>])"
    by (simp add: toggle_single_selected)
qed

theorem toggle_single_witness:
  "distinct (map chip_id mockChips) \<and> mockChips ! 1 \<in> set mockChips \<and>
   chip_id (mockChips ! 1) = lit ''2'' \<and>
   selectedChips (next_value mockChips (toggleChipSelection mockChips (lit ''2'') False)) =
     [(mockChips ! 1)\<lparr>selected := Some True\<rparr>]"
  using toggle_single [of mockChips "lit ''2''", THEN conjunct2, THEN conjunct2, rule_format,
      of "mockChips ! 1"]
  by (simp add: mockChips_def lit_def is_selected_def)

subsection \<open>Deletion\<close>

text \<open>
  Claim C4: \<open>removeChips\<close> follows this case analysis. If a token is selected, the next list
  is the list without its selected tokens, in the same order, whatever the typed text. Else,
  if the list is not empty and no text is typed, the next list is the list without its last
  token. Else (empty list, or text typed and nothing selected) nothing happens and the list
  is unchanged.
\<close>

theorem removeChips_cases:
  "((\<exists>c \<in> set L. is_selected c) \<longrightarrow>
      next_value L (removeChips L inputValue) = filter (\<lambda>c. \<not> is_selected c) L) \<and>
   (\<not> (\<exists>c \<in> set L. is_selected c) \<and> L \<noteq> [] \<and> inputValue = [] \<longrightarrow>
      next_value L (removeChips L inputValue) @ [last L] = L) \<and>
   (\<not> (\<exists>c \<in> set L. is_selected c) \<and> (L = [] \<or> inputValue \<noteq> []) \<longrightarrow>
      removeChips L inputValue = no_effects \<and> next_value L (removeChips L inputValue) = L)"
proof -
  have sel: "length (selectedChips L) > 0 \<longleftrightarrow> (\<exists>c \<in> set L. is_selected c)"
    by (auto simp: selectedChips_def filter_empty_conv)
  show ?thesis
    unfolding removeChips_def sel
    by (auto simp: next_value_def no_effects_def slice_butlast)
qed

theorem removeChips_cases_witness:
  "(\<exists>c \<in> set (mockChips[1 := (mockChips ! 1)\<lparr>selected := Some True\<rparr>]). is_selected c) \<and>
   next_value (mockChips[1 := (mockChips ! 1)\<lparr>selected := Some True\<rparr>])
     (removeChips (mockChips[1 := (mockChips ! 1)\<lparr>selected := Some True\<rparr>]) (lit ''x'')) =
     [mockChips ! 0, mockChips ! 2] \<and>
   \<not> (\<exists>c \<in> set mockChips. is_selected c) \<and> mockChips \<noteq> [] \<and>
   next_value mockChips (removeChips mockChips []) = [mockChips ! 0, mockChips ! 1] \<and>
   lit ''x'' \<noteq> [] \<and>
   next_value mockChips (removeChips mockChips (lit ''x'')) = mockChips"
  using removeChips_cases [of "mockChips[1 := (mockChips ! 1)\<lparr>selected := Some True\<rparr>]" "lit ''x''"]
    removeChips_cases [of mockChips "[]"]
    removeChips_cases [of mockChips "lit ''x''"]
  by (simp add: mockChips_def is_selected_def lit_def next_value_def no_effects_def)

subsection \<open>The frame of the operations\<close>

text \<open>
  Claim C5: every operation leaves the id, label and value (and everything else but
  \<open>selected\<close>) of every token it keeps. The three selection operations keep the list up to
  the selection flags; a deletion yields a subsequence of the list, its tokens untouched;
  creation and paste keep the list up to the selection flags and add at its end at most the
  chip that \<open>onAdd\<close> returned, or the chips that \<open>onPaste\<close> returned.
\<close>

theorem operations_frame:
  "map erase_selected (next_value L (selectAllChips L)) = map erase_selected L \<and>
   map erase_selected (next_value L (clearSelection L)) = map erase_selected L \<and>
   map erase_selected (next_value L (toggleChipSelection L t m)) = map erase_selected L \<and>
   subseq (next_value L (removeChips L inputValue)) L \<and>
   map erase_selected (take (length L) (next_value L (createChipFromInput L inputValue onAdd)))
     = map erase_selected L \<and>
   (drop (length L) (next_value L (createChipFromInput L inputValue onAdd)) = [] \<or>
    (\<exists>add newChip. onAdd = Some add \<and> add (trim inputValue) = Some newChip \<and>
       drop (length L) (next_value L (createChipFromInput L inputValue onAdd)) = [newChip])) \<and>
   map erase_selected (take (length L) (next_value L (handlePaste L onPaste clipboardData)))
     = map erase_selected L \<and>
   (drop (length L) (next_value L (handlePaste L onPaste clipboardData)) = [] \<or>
    (\<exists>paste. onPaste = Some paste \<and>
       paste clipboardData =
         Some (drop (length L) (next_value L (handlePaste L onPaste clipboardData)))))"
proof (intro conjI)
  show "map erase_selected (next_value L (selectAllChips L)) = map erase_selected L"
    by (simp add: selectAllChips_def next_value_def no_effects_def)
  show "map erase_selected (next_value L (clearSelection L)) = map erase_selected L"
    by (simp add: clearSelection_def next_value_def no_effects_def)
  show "map erase_selected (next_value L (toggleChipSelection L t m)) = map erase_selected L"
    by (simp add: toggleChipSelection_def next_value_def no_effects_def)
  show "subseq (next_value L (removeChips L inputValue)) L"
    by (simp add: removeChips_def next_value_def no_effects_def slice_butlast
        prefix_imp_subseq [OF prefixeq_butlast])
  show "map erase_selected
      (take (length L) (next_value L (createChipFromInput L inputValue onAdd))) =
      map erase_selected L"
    by (simp add: createChipFromInput_def next_value_def no_effects_def Let_def
        split: option.splits)
  show "drop (length L) (next_value L (createChipFromInput L inputValue onAdd)) = [] \<or>
    (\<exists>add newChip. onAdd = Some add \<and> add (trim inputValue) = Some newChip \<and>
       drop (length L) (next_value L (createChipFromInput L inputValue onAdd)) = [newChip])"
    by (simp add: createChipFromInput_def next_value_def no_effects_def Let_def
        split: option.splits)
  show "map erase_selected
      (take (length L) (next_value L (handlePaste L onPaste clipboardData))) =
      map erase_selected L"
    by (simp add: handlePaste_def next_value_def no_effects_def split: option.splits)
  show "drop (length L) (next_value L (handlePaste L onPaste clipboardData)) = [] \<or>
    (\<exists>paste. onPaste = Some paste \<and>
       paste clipboardData =
         Some (drop (length L) (next_value L (handlePaste L onPaste clipboardData))))"
    by (simp add: handlePaste_def next_value_def no_effects_def split: option.splits)
qed

subsection \<open>A rejected creation\<close>

text \<open>
  On Enter, a text that \<open>onAdd\<close> rejects changes nothing: \<open>onChange\<close> is not called and
  the typed text stays.
\<close>

lemma createChipFromInput_rejected:
  "trim inputValue \<noteq> [] \<Longrightarrow> add (trim inputValue) = None \<Longrightarrow>
   createChipFromInput L inputValue (Some add) = no_effects"
  by (simp add: createChipFromInput_def)

text \<open>
  Claim C6: when \<open>onAdd\<close> rejects a non-empty trimmed text, the list is not modified and the
  typed text is kept. The separator path of \<open>handleInputChange\<close> does not keep it: with the
  separator \<open>,\<close> configured and an \<open>onAdd\<close> that rejects, typing \<open>Rejected,\<close> calls no
  \<open>onChange\<close> but sets the typed text to the empty string.
\<close>

theorem handleInputChange_rejected:
  "handleInputChange mockChips [lit '',''] (Some (\<lambda>text. None)) (lit ''Rejected,'') =
     \<lparr>onChange = None, setInputValue = Some [], focus = False\<rparr> \<and>
   trim (lit ''Rejected'') \<noteq> [] \<and>
   next_inputValue (lit ''Rejected,'')
     (handleInputChange mockChips [lit '',''] (Some (\<lambda>text. None)) (lit ''Rejected,'')) = []"
  by (simp add: handleInputChange_def slice_butlast trim_def is_white_space_def lit_def
      no_effects_def next_inputValue_def)

section \<open>The JSON parser terminates\<close>

text \<open>Every parser that succeeds returns a rest shorter than its input.\<close>

lemma skip_ws_length: "length (skip_ws cs) \<le> length cs"
  by (simp add: skip_ws_def length_dropWhile_le)

lemma skip_ws_Cons_length: "skip_ws cs = d # r \<Longrightarrow> length r < length cs"
  using skip_ws_length [of cs] by simp

lemma parse_string_chars_length:
  "parse_string_chars cs = Some (s, r) \<Longrightarrow> length r < length cs"
proof (induction cs arbitrary: s r rule: parse_string_chars.induct)
  case 1
  then show ?case by simp
next
  case (2 c cs)
  then show ?case
    by (fastforce split: if_splits list.splits option.splits)
qed

lemma parse_int_length: "parse_int cs = Some (ip, r) \<Longrightarrow> length r < length cs"
  by (cases cs) (auto simp: parse_int_def split: if_splits intro: le_imp_less_Suc length_dropWhile_le)

lemma parse_frac_length: "parse_frac cs = Some (fp, r) \<Longrightarrow> length r \<le> length cs"
  by (cases cs) (auto simp: parse_frac_def split: if_splits intro: le_SucI length_dropWhile_le)

lemma parse_sign_length: "parse_sign cs = (b, r) \<Longrightarrow> length r \<le> length cs"
  by (cases cs) (auto simp: parse_sign_def split: if_splits)

lemma parse_exp_length: "parse_exp cs = Some (e, r) \<Longrightarrow> length r \<le> length cs"
proof (cases cs)
  case Nil
  assume "parse_exp cs = Some (e, r)"
  with Nil show ?thesis by (simp add: parse_exp_def)
next
  case (Cons x xs)
  assume a: "parse_exp cs = Some (e, r)"
  obtain b r' where s: "parse_sign xs = (b, r')" by (cases "parse_sign xs")
  have "length (dropWhile is_digit r') \<le> length xs"
    using parse_sign_length [OF s] length_dropWhile_le [of is_digit r'] by simp
  with a Cons s show ?thesis
    by (auto simp: parse_exp_def split: if_splits)
qed

lemma parse_number_length: "parse_number cs = Some (v, r) \<Longrightarrow> length r < length cs"
  unfolding parse_number_def
  by (cases cs)
    (auto split: if_splits option.splits prod.splits
      dest!: parse_int_length parse_frac_length parse_exp_length)

lemma parse_dom_length:
  "parse_value_parse_elements_parse_members_dom (Inl cs) \<Longrightarrow>
     parse_value cs = Some (v, r) \<Longrightarrow> length r < length cs"
  "parse_value_parse_elements_parse_members_dom (Inr (Inl cs)) \<Longrightarrow>
     parse_elements cs = Some (vs, r) \<Longrightarrow> length r < length cs"
  "parse_value_parse_elements_parse_members_dom (Inr (Inr cs)) \<Longrightarrow>
     parse_members cs = Some (ms, r) \<Longrightarrow> length r < length cs"
proof (induction cs and cs and cs arbitrary: v r and vs r and ms r
    rule: parse_value_parse_elements_parse_members.pinduct)
  case 1
  then show ?case by (simp add: parse_value.psimps)
next
  case (2 c r0)
  have m: "length r < Suc (length r0)"
    if "c = 0x7B" "skip_ws r0 = d # r'" "d \<noteq> 0x7D" "parse_members (d # r') = Some (ms, r)"
    for d r' ms
    using "2.IH"(1) [OF that] skip_ws_length [of r0] that(2) by simp
  have e: "length r < Suc (length r0)"
    if "c \<noteq> 0x7B" "c = 0x5B" "skip_ws r0 = d # r'" "d \<noteq> 0x5D"
      "parse_elements (d # r') = Some (vs, r)"
    for d r' vs
    using "2.IH"(2) [OF that] skip_ws_length [of r0] that(3) by simp
  have k: "length r' < Suc (length r0)" if "skip_ws r0 = d # r'" for d r'
    using skip_ws_length [of r0] that by simp
  from "2.prems" show ?case
    unfolding parse_value.psimps(2) [OF "2.hyps"]
    by (auto split: if_splits list.splits intro: m e k
        dest!: parse_string_chars_length parse_number_length)
next
  case (3 cs)
  have v: "length r' < length cs" if "parse_value cs = Some (v, r')" for v r'
    using "3.IH"(1) [OF that] .
  have e: "length r < length cs"
    if "parse_value cs = Some (v, r1)" "skip_ws r1 = d # r2" "d \<noteq> 0x5D" "d = 0x2C"
      "parse_elements (skip_ws r2) = Some (vs', r)"
    for v r1 d r2 vs'
    using "3.IH"(2) [OF that(1) refl that(2-5)] v [OF that(1)] skip_ws_Cons_length [OF that(2)]
      skip_ws_length [of r2] by simp
  have k: "length r2 < length cs" if "parse_value cs = Some (v, r1)" "skip_ws r1 = d # r2"
    for v r1 d r2
    using v [OF that(1)] skip_ws_Cons_length [OF that(2)] by simp
  from "3.prems" show ?case
    unfolding parse_elements.psimps [OF "3.hyps"]
    by (auto split: if_splits list.splits option.splits prod.splits intro: e k)
next
  case 4
  then show ?case by (simp add: parse_members.psimps)
next
  case (5 c r0)
  have v: "length r3 < length r0"
    if "c = 0x22" "parse_string_chars r0 = Some (k, r1)" "skip_ws r1 = d # r2" "d = 0x3A"
      "parse_value (skip_ws r2) = Some (v, r3)"
    for k r1 d r2 v r3
  proof -
    have "length r3 < length (skip_ws r2)"
      using "5.IH"(1) [OF _ that(2) refl that(3) _ that(5)] that(1,4) by simp
    then show ?thesis
      using skip_ws_length [of r2] skip_ws_Cons_length [OF that(3)]
        parse_string_chars_length [OF that(2)] by simp
  qed
  have e: "length r < Suc (length r0)"
    if "c = 0x22" "parse_string_chars r0 = Some (k, r1)" "skip_ws r1 = d # r2" "d = 0x3A"
      "parse_value (skip_ws r2) = Some (v, r3)" "skip_ws r3 = x # r4" "x \<noteq> 0x7D" "x = 0x2C"
      "parse_members (skip_ws r4) = Some (ms', r)"
    for k r1 d r2 v r3 x r4 ms'
  proof -
    have "length r < length (skip_ws r4)"
      using "5.IH"(2) [OF _ that(2) refl that(3) _ that(5) refl that(6,7,8,9)] that(1,4) by simp
    then show ?thesis
      using skip_ws_length [of r4] skip_ws_Cons_length [OF that(6)] v [OF that(1-5)] by simp
  qed
  have k: "length r4 < Suc (length r0)"
    if "c = 0x22" "parse_string_chars r0 = Some (k, r1)" "skip_ws r1 = d # r2" "d = 0x3A"
      "parse_value (skip_ws r2) = Some (v, r3)" "skip_ws r3 = x # r4"
    for k r1 d r2 v r3 x r4
    using skip_ws_Cons_length [OF that(6)] v [OF that(1-5)] by simp
  from "5.prems" show ?case
    unfolding parse_members.psimps(2) [OF "5.hyps"]
    by (auto split: if_splits list.splits option.splits prod.splits intro: e k)
qed

text \<open>
  With that, every recursive call is on a shorter text: a value is smaller than the elements
  or members it belongs to when both start at the same place.
\<close>

termination parse_value
proof (relation "measure (\<lambda>x. case x of
    Inl cs \<Rightarrow> 2 * length cs
  | Inr (Inl cs) \<Rightarrow> 2 * length cs + 1
  | Inr (Inr cs) \<Rightarrow> 2 * length cs + 1)", goal_cases)
  case 1
  then show ?case by simp
next
  case (2 c r d r')
  then show ?case using skip_ws_length [of r] by simp
next
  case (3 c r d r')
  then show ?case using skip_ws_length [of r] by simp
next
  case (4 cs)
  then show ?case by simp
next
  case (5 cs x2 v r d r')
  then show ?case
    using parse_dom_length(1) [of cs v r] skip_ws_Cons_length [of r d r'] skip_ws_length [of r']
    by simp
next
  case (6 c r x2 k r1 d r2)
  then show ?case
    using parse_string_chars_length [of r k r1] skip_ws_Cons_length [of r1 d r2]
      skip_ws_length [of r2]
    by simp
next
  case (7 c r x2 k r1 d r2 x2a v r3 e r4)
  then show ?case
    using parse_string_chars_length [of r k r1] skip_ws_Cons_length [of r1 d r2]
      skip_ws_length [of r2] parse_dom_length(1) [of "skip_ws r2" v r3]
      skip_ws_Cons_length [of r3 e r4] skip_ws_length [of r4]
    by simp
qed


declare parse_value.simps(2) [simp del] parse_members.simps(2) [simp del]
  parse_elements.simps [simp del] Number_toString.simps [simp del]

section \<open>\<open>JSON.parse\<close> inverts \<open>JSON.stringify\<close>\<close>

subsection \<open>Strings\<close>

lemma upt16: "[0..<16] = [0, 1, 2, 3, 4, 5, 6, 7, 8, 9, 10, 11, 12, 13, 14, 15::nat]"
  by code_simp

lemma hex_value_hex_digit: "n < 16 \<Longrightarrow> hex_value (hex_digit n) = Some n"
proof -
  have "\<forall>n \<in> set [0..<16]. hex_value (hex_digit n) = Some n"
    unfolding upt16 by (simp add: hex_value_def hex_digit_def)
  then show "n < 16 \<Longrightarrow> hex_value (hex_digit n) = Some n"
    by simp
qed

lemma hex4_value:
  fixes u :: nat
  shows "((u div 4096 * 16 + u div 256 mod 16) * 16 + u div 16 mod 16) * 16 + u mod 16 = u"
proof -
  have a: "u div 4096 = u div 256 div 16" and b: "u div 256 = u div 16 div 16"
    by (simp_all add: div_mult2_eq [symmetric])
  have "u div 4096 * 16 + u div 256 mod 16 = u div 256"
    unfolding a by (rule div_mult_mod_eq)
  moreover have "u div 256 * 16 + u div 16 mod 16 = u div 16"
    unfolding b by (rule div_mult_mod_eq)
  moreover have "u div 16 * 16 + u mod 16 = u"
    by (rule div_mult_mod_eq)
  ultimately show ?thesis by simp
qed

lemma parse_u_escape:
  assumes "hex_value h1 = Some a" "hex_value h2 = Some b" "hex_value h3 = Some c"
    "hex_value h4 = Some d"
  shows "parse_string_chars (0x5C # 0x75 # h1 # h2 # h3 # h4 # rest) =
     map_option (apfst ((#) (of_nat (((a * 16 + b) * 16 + c) * 16 + d))))
       (parse_string_chars rest)"
  using assms by simp

lemma parse_unicode_escape:
  "parse_string_chars (unicode_escape c @ rest) =
     map_option (apfst ((#) c)) (parse_string_chars rest)"
proof -
  have v: "(of_nat (unat c) :: jschar) = c" by simp
  have u: "unat c < 65536" using unsigned_less [of c] by simp
  then have d: "unat c div 4096 < 16" "unat c div 256 mod 16 < 16" "unat c div 16 mod 16 < 16"
    "unat c mod 16 < 16" by simp_all
  have n: "(of_nat (((unat c div 4096 * 16 + unat c div 256 mod 16) * 16
        + unat c div 16 mod 16) * 16 + unat c mod 16) :: jschar) = c"
    unfolding hex4_value by (rule v)
  have "parse_string_chars
      (0x5C # 0x75 # hex_digit (unat c div 4096) # hex_digit (unat c div 256 mod 16) #
       hex_digit (unat c div 16 mod 16) # hex_digit (unat c mod 16) # rest) =
      map_option (apfst ((#) (of_nat (((unat c div 4096 * 16 + unat c div 256 mod 16) * 16
        + unat c div 16 mod 16) * 16 + unat c mod 16)))) (parse_string_chars rest)"
    by (rule parse_u_escape) (rule hex_value_hex_digit, rule d)+
  then show ?thesis
    unfolding n by (simp add: unicode_escape_def)
qed

lemma surrogate_plain:
  "is_leading_surrogate c \<or> is_trailing_surrogate c \<Longrightarrow>
     c \<noteq> 0x22 \<and> c \<noteq> 0x5C \<and> \<not> c < 0x20 \<and>
     c \<noteq> 0x08 \<and> c \<noteq> 0x09 \<and> c \<noteq> 0x0A \<and> c \<noteq> 0x0C \<and> c \<noteq> 0x0D"
  by (auto simp: is_leading_surrogate_def is_trailing_surrogate_def word_le_nat_alt
      word_less_nat_alt)



lemma parse_quote_chars:
  "parse_string_chars (quote_chars s @ 0x22 # rest) = Some (s, rest)"
proof (induction s rule: length_induct)
  case (1 s)
  show ?case
  proof (cases s)
    case Nil
    then show ?thesis by simp
  next
    case (Cons c cs)
    have IH: "parse_string_chars (quote_chars cs @ 0x22 # rest) = Some (cs, rest)"
      using 1 Cons by simp
    show ?thesis
    proof (cases "c = 0x08 \<or> c = 0x09 \<or> c = 0x0A \<or> c = 0x0C \<or> c = 0x0D \<or> c = 0x22 \<or> c = 0x5C")
      case True
      then show ?thesis
        using IH unfolding Cons by (elim disjE) (simp_all add: escape_value_def)
    next
      case special: False
      show ?thesis
      proof (cases "c < 0x20")
        case True
        with special IH show ?thesis
          unfolding Cons by (simp add: parse_unicode_escape)
      next
        case control: False
        show ?thesis
        proof (cases "is_leading_surrogate c")
          case lead: True
          show ?thesis
          proof (cases cs)
            case Nil
            with lead special control show ?thesis
              unfolding Cons by (simp add: parse_unicode_escape)
          next
            case tail: (Cons d ds)
            show ?thesis
            proof (cases "is_trailing_surrogate d")
              case True
              have "parse_string_chars (quote_chars ds @ 0x22 # rest) = Some (ds, rest)"
                using 1 Cons tail by simp
              with True lead special control tail surrogate_plain [of d] show ?thesis
                unfolding Cons by simp
            next
              case False
              with lead special control tail IH show ?thesis
                unfolding Cons by (simp add: parse_unicode_escape)
            qed
          qed
        next
          case nolead: False
          show ?thesis
          proof (cases "is_trailing_surrogate c")
            case True
            with nolead special control IH show ?thesis
              unfolding Cons by (simp add: parse_unicode_escape)
          next
            case False
            with nolead special control IH show ?thesis
              unfolding Cons by simp
          qed
        qed
      qed
    qed
  qed
qed

lemma parse_value_quote: "parse_value (QuoteJSONString s @ rest) = Some (JStr s, rest)"
  by (simp add: parse_value.simps(2) QuoteJSONString_def parse_quote_chars)



subsection \<open>Objects and arrays\<close>

lemma skip_ws_quote [simp]: "skip_ws (QuoteJSONString k @ r) = QuoteJSONString k @ r"
  by (simp add: QuoteJSONString_def skip_ws_def is_json_ws_def)

lemma skip_ws_punct [simp]:
  "skip_ws (0x7B # r) = 0x7B # r" "skip_ws (0x7D # r) = 0x7D # r"
  "skip_ws (0x5B # r) = 0x5B # r" "skip_ws (0x5D # r) = 0x5D # r"
  "skip_ws (0x2C # r) = 0x2C # r" "skip_ws (0x3A # r) = 0x3A # r"
  "skip_ws (0x31 # r) = 0x31 # r" "skip_ws [] = []"
  by (simp_all add: skip_ws_def is_json_ws_def)

lemma parse_value_object:
  "parse_value (0x7B # QuoteJSONString k @ r) =
     map_option (apfst JObj) (parse_members (QuoteJSONString k @ r))"
  by (simp add: parse_value.simps(2) QuoteJSONString_def skip_ws_def is_json_ws_def)

lemma parse_members_last:
  assumes "parse_value (skip_ws X) = Some (v, 0x7D # rest)"
  shows "parse_members (QuoteJSONString k @ 0x3A # X) = Some ([(k, v)], rest)"
  using assms by (simp add: parse_members.simps(2) QuoteJSONString_def parse_quote_chars)

lemma parse_members_more:
  assumes "parse_value (skip_ws X) = Some (v, 0x2C # rest)"
  shows "parse_members (QuoteJSONString k @ 0x3A # X) =
     map_option (apfst ((#) (k, v))) (parse_members (skip_ws rest))"
  using assms by (simp add: parse_members.simps(2) QuoteJSONString_def parse_quote_chars)

lemma parse_value_one: "parse_value (0x31 # 0x2C # r) = Some (JNum 1, 0x2C # r)"
  by (simp add: parse_value.simps(2) lit_def parse_number_def parse_int_def parse_frac_def parse_exp_def
      is_digit_def digits_value_def pow10_def)

lemma stringify_chip_eq:
  "stringify_chip c @ rest =
     0x7B # QuoteJSONString (lit ''id'') @ 0x3A # QuoteJSONString (sc_id c) @
     0x2C # QuoteJSONString (lit ''label'') @ 0x3A # QuoteJSONString (sc_label c) @
     (case sc_value c of
        None \<Rightarrow> 0x7D # rest
      | Some v \<Rightarrow> 0x2C # QuoteJSONString (lit ''value'') @ 0x3A # QuoteJSONString v @ 0x7D # rest)"
  by (simp add: stringify_chip_def lit_def split: option.split)

lemma parse_members_str_last:
  "parse_members (QuoteJSONString k @ 0x3A # QuoteJSONString s @ 0x7D # rest) =
     Some ([(k, JStr s)], rest)"
  by (rule parse_members_last) (simp add: parse_value_quote)

lemma parse_members_str_more:
  "parse_members (QuoteJSONString k @ 0x3A # QuoteJSONString s @ 0x2C # rest) =
     map_option (apfst ((#) (k, JStr s))) (parse_members (skip_ws rest))"
  by (rule parse_members_more) (simp add: parse_value_quote)

lemma parse_value_chip: "parse_value (stringify_chip c @ rest) = Some (chip_jsval c, rest)"
  by (cases "sc_value c")
    (simp_all add: stringify_chip_eq parse_value_object chip_jsval_def
      parse_members_str_more parse_members_str_last)

lemma join_Cons: "join sep (x # xs) = x @ (if xs = [] then [] else sep @ join sep xs)"
  by (cases xs) simp_all

lemma skip_ws_chip [simp]: "skip_ws (stringify_chip c @ r) = stringify_chip c @ r"
  by (simp add: stringify_chip_eq)

lemma skip_ws_chips [simp]:
  "cs \<noteq> [] \<Longrightarrow>
   skip_ws (join [0x2C] (map stringify_chip cs) @ r) = join [0x2C] (map stringify_chip cs) @ r"
  by (cases cs) (simp_all add: join_Cons)

lemma parse_elements_chips:
  "cs \<noteq> [] \<Longrightarrow>
   parse_elements (join [0x2C] (map stringify_chip cs) @ 0x5D # rest) =
     Some (map chip_jsval cs, rest)"
proof (induction cs rule: list_nonempty_induct)
  case (single c)
  show ?case
    by (simp add: parse_elements.simps [of "stringify_chip c @ 0x5D # rest"] parse_value_chip)
next
  case (cons c cs)
  then show ?case
    by (simp add: join_Cons
        parse_elements.simps [of "stringify_chip c @ 0x2C # join [0x2C] (map stringify_chip cs) @ 0x5D # rest"]
        parse_value_chip)
qed

lemma parse_value_chips:
  "parse_value (0x5B # join [0x2C] (map stringify_chip cs) @ 0x5D # rest) =
     Some (JArr (map chip_jsval cs), rest)"
proof (cases cs)
  case Nil
  then show ?thesis by (simp add: parse_value.simps(2))
next
  case (Cons c cs')
  obtain r where r: "join [0x2C] (map stringify_chip cs) @ 0x5D # rest = 0x7B # r"
    by (simp add: Cons join_Cons stringify_chip_eq)
  have ne: "cs \<noteq> []" using Cons by simp
  have "skip_ws (join [0x2C] (map stringify_chip cs) @ 0x5D # rest) =
      join [0x2C] (map stringify_chip cs) @ 0x5D # rest"
    using ne by (rule skip_ws_chips)
  then have "parse_value (0x5B # join [0x2C] (map stringify_chip cs) @ 0x5D # rest) =
      map_option (apfst JArr) (parse_elements (join [0x2C] (map stringify_chip cs) @ 0x5D # rest))"
    by (simp add: parse_value.simps(2) [of "0x5B"] r)
  then show ?thesis
    by (simp add: parse_elements_chips [OF ne])
qed

lemma JSON_parse_stringify:
  "sd_version data = 1 \<Longrightarrow> JSON_parse (JSON_stringify data) = Inr (data_jsval data)"
proof -
  assume v: "sd_version data = 1"
  have s: "JSON_stringify data =
      0x7B # QuoteJSONString (lit ''version'') @ 0x3A # 0x31 # 0x2C #
      QuoteJSONString (lit ''chips'') @ 0x3A # 0x5B #
      join [0x2C] (map stringify_chip (sd_chips data)) @ 0x5D # [0x7D]"
    by (simp add: JSON_stringify_def v lit_def Number_toString.simps)
  have c: "parse_members (QuoteJSONString (lit ''chips'') @ 0x3A # 0x5B #
      join [0x2C] (map stringify_chip (sd_chips data)) @ 0x5D # [0x7D]) =
      Some ([(lit ''chips'', JArr (map chip_jsval (sd_chips data)))], [])"
    by (rule parse_members_last) (simp add: parse_value_chips)
  have "parse_members (QuoteJSONString (lit ''version'') @ 0x3A # 0x31 # 0x2C #
      QuoteJSONString (lit ''chips'') @ 0x3A # 0x5B #
      join [0x2C] (map stringify_chip (sd_chips data)) @ 0x5D # [0x7D]) =
      map_option (apfst ((#) (lit ''version'', JNum 1)))
        (parse_members (skip_ws (QuoteJSONString (lit ''chips'') @ 0x3A # 0x5B #
      join [0x2C] (map stringify_chip (sd_chips data)) @ 0x5D # [0x7D])))"
    by (rule parse_members_more) (simp add: parse_value_one)
  then show ?thesis
    by (simp add: JSON_parse_def s parse_value_object c data_jsval_def v)
qed


section \<open>Properties of the serializer\<close>

lemma get_property_data:
  "get_property (data_jsval d) (lit ''version'') = Inr (JNum (of_nat (sd_version d)))"
  "get_property (data_jsval d) (lit ''chips'') = Inr (JArr (map chip_jsval (sd_chips d)))"
  by (simp_all add: get_property_def data_jsval_def lit_def)

lemma get_property_chip:
  "get_property (chip_jsval c) (lit ''label'') = Inr (JStr (sc_label c))"
  "get_property (chip_jsval c) (lit ''value'') =
     Inr (case sc_value c of None \<Rightarrow> JUndefined | Some v \<Rightarrow> JStr v)"
  by (simp_all add: get_property_def chip_jsval_def lit_def split: option.split)

lemma reconstruct_chips:
  "reconstruct u n (map (chip_jsval \<circ> f) xs) =
     Inr (map (\<lambda>(i, x). pasted u i (sc_label (f x))
                 (case sc_value (f x) of None \<Rightarrow> sc_label (f x) | Some v \<Rightarrow> v))
            (enumerate n xs))"
  by (induction xs arbitrary: n)
    (simp_all add: get_property_chip pasted_def split: option.split)

lemma truthy_data: "truthy (data_jsval d)"
  by (simp add: truthy_def data_jsval_def)

lemma slice_marker: "slice_js (m @ s) (int (length m)) None = s"
  by (simp add: slice_js_def)

lemma deserialize_serialize:
  "deserialize u (serialize T) =
     Inr (Some (map (\<lambda>(i, c). pasted u i (label c)
                      (case chip_value c of None \<Rightarrow> label c | Some v \<Rightarrow> v))
                 (enumerate 0 T)), [])"
proof -
  let ?d = "\<lparr>sd_version = CLIPBOARD_VERSION, sd_chips = map cleanChip T\<rparr>"
  have p: "JSON_parse (JSON_stringify ?d) = Inr (data_jsval ?d)"
    by (rule JSON_parse_stringify) (simp add: CLIPBOARD_VERSION_def)
  have s: "serialize T = CLIPBOARD_MARKER @ JSON_stringify ?d"
    by (simp add: serialize_def)
  have "deserializeChipInputFormat u (serialize T) =
     Inr (Some (map (\<lambda>(i, c). pasted u i (label c)
                      (case chip_value c of None \<Rightarrow> label c | Some v \<Rightarrow> v))
                 (enumerate 0 T)), [])"
    unfolding deserializeChipInputFormat_def s slice_marker Let_def p
    by (simp add: try_catch_def truthy_data get_property_data is_CLIPBOARD_VERSION_def
        CLIPBOARD_VERSION_def reconstruct_chips cleanChip_def split_def split: option.split)
  then show ?thesis
    by (simp add: deserialize_def s)
qed

lemma chip_jsval_inject: "chip_jsval c = chip_jsval c' \<Longrightarrow> c = c'"
  by (cases c; cases c') (auto simp: chip_jsval_def split: option.splits)

lemma JSON_stringify_inject:
  assumes "JSON_stringify d = JSON_stringify d'" "sd_version d = 1" "sd_version d' = 1"
  shows "d = d'"
proof -
  have "data_jsval d = data_jsval d'"
    using JSON_parse_stringify [OF assms(2)] JSON_parse_stringify [OF assms(3)] assms(1)
    by simp
  then have "map chip_jsval (sd_chips d) = map chip_jsval (sd_chips d')"
    by (simp add: data_jsval_def)
  then have "sd_chips d = sd_chips d'"
    by (simp add: inj_on_def chip_jsval_inject inj_map_eq_map [OF injI])
  with assms(2,3) show ?thesis by simp
qed

lemma serialize_inject: "serialize T = serialize T' \<Longrightarrow> map cleanChip T = map cleanChip T'"
proof -
  assume "serialize T = serialize T'"
  then have "JSON_stringify \<lparr>sd_version = CLIPBOARD_VERSION, sd_chips = map cleanChip T\<rparr> =
      JSON_stringify \<lparr>sd_version = CLIPBOARD_VERSION, sd_chips = map cleanChip T'\<rparr>"
    by (simp add: serialize_def cleanChip_def)
  then have "\<lparr>sd_version = CLIPBOARD_VERSION, sd_chips = map cleanChip T\<rparr> =
      \<lparr>sd_version = CLIPBOARD_VERSION, sd_chips = map cleanChip T'\<rparr>"
    by (rule JSON_stringify_inject) (simp_all add: CLIPBOARD_VERSION_def)
  then show ?thesis by simp
qed

subsection \<open>The round trip\<close>

lemma enumerate_nth_map:
  "map (\<lambda>(i, c). f i c) (enumerate 0 T) = map (\<lambda>i. f i (T ! i)) [0..<length T]"
proof (rule nth_equalityI)
  show "length (map (\<lambda>(i, c). f i c) (enumerate 0 T)) = length (map (\<lambda>i. f i (T ! i)) [0..<length T])"
    by simp
next
  fix i assume "i < length (map (\<lambda>(i, c). f i c) (enumerate 0 T))"
  then show "map (\<lambda>(i, c). f i c) (enumerate 0 T) ! i = map (\<lambda>i. f i (T ! i)) [0..<length T] ! i"
    by (simp add: nth_enumerate_eq)
qed

text \<open>
  Claim C1, as stated: decoding the encoding of a list of tokens with id, label and value
  yields, among other things, tokens whose ids all differ from the corresponding input ids.
  The new id is what \<open>crypto.randomUUID()\<close> returns, whatever the input id is: when the
  input id is a version-4 UUID and the generator returns the same one, the two ids are equal.
\<close>

theorem roundtrip_counterexample:
  "chip_value ((mockChips ! 0)\<lparr>chip_id := lit ''00000000-0000-4000-8000-000000000000''\<rparr>) \<noteq> None \<and>
   deserialize (\<lambda>n. lit ''00000000-0000-4000-8000-000000000000'')
     (serialize [(mockChips ! 0)\<lparr>chip_id := lit ''00000000-0000-4000-8000-000000000000''\<rparr>]) =
     Inr (Some [\<lparr>pc_id = lit ''00000000-0000-4000-8000-000000000000'',
                 pc_label = JStr (lit ''React''), pc_value = JStr (lit ''React''),
                 pc_selected = False, pc_disabled = False\<rparr>], []) \<and>
   pc_id \<lparr>pc_id = lit ''00000000-0000-4000-8000-000000000000'',
          pc_label = JStr (lit ''React''), pc_value = JStr (lit ''React''),
          pc_selected = False, pc_disabled = False\<rparr> =
     chip_id ((mockChips ! 0)\<lparr>chip_id := lit ''00000000-0000-4000-8000-000000000000''\<rparr>)"
  by (simp add: deserialize_serialize pasted_def mockChips_def)

text \<open>
  Claim C1, amended: for every list \<open>T\<close> of tokens with id, label and value,
  \<open>deserialize (serialize T)\<close> returns a list and writes nothing to the console; the list has
  the length of \<open>T\<close>, the labels and the values of \<open>T\<close> in the same order, and every token
  in it is neither selected nor disabled. The id of its token \<open>i\<close> is the result of call number
  \<open>i\<close> of \<open>crypto.randomUUID()\<close>, never the serialized id: it differs from the id of the input
  token \<open>i\<close> exactly when the generator does not return that very id.
\<close>

theorem roundtrip:
  assumes "\<forall>c \<in> set T. chip_value c \<noteq> None"
  shows "\<exists>cs. deserialize randomUUID (serialize T) = Inr (Some cs, []) \<and>
     length cs = length T \<and>
     map pc_label cs = map (\<lambda>c. JStr (label c)) T \<and>
     map (\<lambda>p. Some (pc_value p)) cs = map (\<lambda>c. map_option JStr (chip_value c)) T \<and>
     (\<forall>p \<in> set cs. pc_selected p = False \<and> pc_disabled p = False) \<and>
     map pc_id cs = map randomUUID [0..<length T] \<and>
     (\<forall>i < length T. pc_id (cs ! i) \<noteq> chip_id (T ! i) \<longleftrightarrow> randomUUID i \<noteq> chip_id (T ! i))"
proof -
  let ?cs = "map (\<lambda>i. pasted randomUUID i (label (T ! i))
      (case chip_value (T ! i) of None \<Rightarrow> label (T ! i) | Some v \<Rightarrow> v)) [0..<length T]"
  have d: "deserialize randomUUID (serialize T) = Inr (Some ?cs, [])"
    by (simp add: deserialize_serialize enumerate_nth_map)
  have l: "map pc_label ?cs = map (\<lambda>c. JStr (label c)) T"
    by (rule nth_equalityI) (simp_all add: pasted_def)
  have v: "map (\<lambda>p. Some (pc_value p)) ?cs = map (\<lambda>c. map_option JStr (chip_value c)) T"
  proof (rule nth_equalityI)
    show "length (map (\<lambda>p. Some (pc_value p)) ?cs) =
        length (map (\<lambda>c. map_option JStr (chip_value c)) T)"
      by simp
  next
    fix i assume "i < length (map (\<lambda>p. Some (pc_value p)) ?cs)"
    then have i: "i < length T" by simp
    then have "chip_value (T ! i) \<noteq> None" using assms by simp
    with i show "map (\<lambda>p. Some (pc_value p)) ?cs ! i =
        map (\<lambda>c. map_option JStr (chip_value c)) T ! i"
      by (auto simp: pasted_def)
  qed
  have s: "\<forall>p \<in> set ?cs. pc_selected p = False \<and> pc_disabled p = False"
    by (simp add: pasted_def)
  have i: "map pc_id ?cs = map randomUUID [0..<length T]"
    by (simp add: pasted_def)
  have n: "\<forall>i < length T. pc_id (?cs ! i) \<noteq> chip_id (T ! i) \<longleftrightarrow> randomUUID i \<noteq> chip_id (T ! i)"
    by (simp add: pasted_def)
  from d l v s i n show ?thesis
    by (intro exI [of _ ?cs] conjI) simp_all
qed

text \<open>The three test chips, with the identifiers \<open>uuid-0\<close>, \<open>uuid-1\<close>, \<open>uuid-2\<close>.\<close>

theorem roundtrip_witness:
  "None \<notin> chip_value ` set mockChips \<and>
   (\<exists>cs. deserialize uuids (serialize mockChips) = Inr (Some cs, []) \<and>
     length cs = length mockChips \<and>
     map pc_label cs = map (\<lambda>c. JStr (label c)) mockChips \<and>
     map (\<lambda>p. Some (pc_value p)) cs = map (\<lambda>c. map_option JStr (chip_value c)) mockChips \<and>
     (\<forall>p \<in> set cs. pc_selected p = False \<and> pc_disabled p = False) \<and>
     map pc_id cs = map uuids [0..<length mockChips] \<and>
     (\<forall>i < length mockChips. pc_id (cs ! i) \<noteq> chip_id (mockChips ! i) \<longleftrightarrow>
        uuids i \<noteq> chip_id (mockChips ! i)))"
proof -
  have n: "None \<notin> chip_value ` set mockChips"
    by (simp add: mockChips_def)
  then have h: "\<forall>c \<in> set mockChips. chip_value c \<noteq> None"
    by (metis imageI)
  from n roundtrip [OF h, of uuids] show ?thesis
    by (intro conjI)
qed

subsection \<open>Determinism and order\<close>

lemma serialize_cong: "map cleanChip T = map cleanChip T' \<Longrightarrow> serialize T = serialize T'"
  by (simp add: serialize_def)

lemma distinct_not_palindrome:
  assumes "distinct xs" "2 \<le> length xs"
  shows "rev xs \<noteq> xs"
proof
  assume r: "rev xs = xs"
  from assms(2) obtain a ys where xs: "xs = a # ys" and ys: "ys \<noteq> []"
    by (cases xs) fastforce+
  have "last xs = hd (rev xs)"
    using xs by (simp add: hd_rev)
  also have "\<dots> = a" using r xs by simp
  finally have "last ys = a" using xs ys by simp
  moreover have "last ys \<in> set ys" using ys by simp
  ultimately show False using assms(1) xs by simp
qed

text \<open>
  Claim C2, as stated: \<open>serialize\<close> is deterministic, and a list with at least two distinct
  tokens never has the encoding of its reverse. The second part fails on a palindrome: the
  list React, TypeScript, React holds two distinct tokens and is its own reverse. It also
  fails on two tokens that differ in \<open>selected\<close> only, which \<open>serialize\<close> drops.
\<close>

theorem serialize_reverse_counterexample:
  "mockChips ! 0 \<noteq> mockChips ! 1 \<and>
   serialize [mockChips ! 0, mockChips ! 1, mockChips ! 0] =
     serialize (rev [mockChips ! 0, mockChips ! 1, mockChips ! 0]) \<and>
   mockChips ! 0 \<noteq> (mockChips ! 0)\<lparr>selected := Some True\<rparr> \<and>
   serialize [mockChips ! 0, (mockChips ! 0)\<lparr>selected := Some True\<rparr>] =
     serialize (rev [mockChips ! 0, (mockChips ! 0)\<lparr>selected := Some True\<rparr>])"
  by (simp add: mockChips_def lit_def serialize_def cleanChip_def)

text \<open>
  Claim C2, amended: \<open>serialize\<close> is a function of the sequence of the (id, label, value)
  projections of the tokens, and an injective one: two lists have the same encoding exactly
  if these sequences are equal. So the encoding of a list differs from the encoding of its
  reverse exactly if the sequence of projections is not a palindrome; in particular whenever
  the list has at least two tokens and pairwise distinct ids.
\<close>

theorem serialize_order:
  "(serialize T = serialize T' \<longleftrightarrow> map cleanChip T = map cleanChip T') \<and>
   (serialize T \<noteq> serialize (rev T) \<longleftrightarrow> rev (map cleanChip T) \<noteq> map cleanChip T) \<and>
   (distinct (map chip_id T) \<and> 2 \<le> length T \<longrightarrow> serialize T \<noteq> serialize (rev T))"
proof (intro conjI impI)
  show eq: "serialize T = serialize T' \<longleftrightarrow> map cleanChip T = map cleanChip T'" for T T'
    using serialize_inject serialize_cong by blast
  show "serialize T \<noteq> serialize (rev T) \<longleftrightarrow> rev (map cleanChip T) \<noteq> map cleanChip T"
    using eq [of T "rev T"] by (auto simp: rev_map)
  assume d: "distinct (map chip_id T) \<and> 2 \<le> length T"
  then have "rev (map chip_id T) \<noteq> map chip_id T"
    using distinct_not_palindrome [of "map chip_id T"] by simp
  then have "map sc_id (rev (map cleanChip T)) \<noteq> map sc_id (map cleanChip T)"
    by (simp add: rev_map cleanChip_def o_def)
  then have "rev (map cleanChip T) \<noteq> map cleanChip T"
    by auto
  then show "serialize T \<noteq> serialize (rev T)"
    using eq [of T "rev T"] by (simp add: rev_map)
qed

text \<open>The three test chips have distinct ids, and the encoding of their reverse differs.\<close>

theorem serialize_order_witness:
  "distinct (map chip_id mockChips) \<and> 2 \<le> length mockChips \<and>
   serialize mockChips \<noteq> serialize (rev mockChips)"
  using serialize_order [of mockChips, THEN conjunct2, THEN conjunct2]
  by (simp add: mockChips_def lit_def)


subsection \<open>Evaluation\<close>

text \<open>The definitions that the evaluation of the serializer on a given text unfolds.\<close>

lemmas eval_defs = lit_def JSON_parse_def skip_ws_def is_json_ws_def parse_number_def
  parse_int_def parse_frac_def parse_exp_def parse_sign_def is_digit_def digits_value_def
  pow10_def hex_value_def escape_value_def CLIPBOARD_MARKER_def deserialize_def
  deserializeChipInputFormat_def deserializePlainTextFallback_def try_catch_def slice_js_def
  truthy_def get_property_def is_CLIPBOARD_VERSION_def number_is_zero_def trim_def
  is_white_space_def parse_value.simps(2) parse_members.simps(2) parse_elements.simps QuoteJSONString_def
  is_leading_surrogate_def is_trailing_surrogate_def

subsection \<open>No exception escapes\<close>

lemma try_catch_returns:
  assumes "\<And>error. \<exists>r. handler error = Inr r"
  shows "\<exists>r. try_catch body handler = Inr r"
  using assms by (cases body) (simp_all add: try_catch_def)

text \<open>
  Claim C7: for every string, \<open>deserialize\<close> completes normally, with a list of tokens or
  with \<open>null\<close>; no exception escapes it, on the marked path and on the plain-text path alike.
  What \<open>JSON.parse\<close> or a property read throws inside \<open>deserializeChipInputFormat\<close> is
  caught there and becomes \<open>null\<close>: a SyntaxError on \<open>invalid json\<close>, a TypeError on a chip
  that is \<open>null\<close>.
\<close>

theorem deserialize_never_throws:
  "(\<exists>result console. deserialize randomUUID clipboardData = Inr (result, console)) \<and>
   (\<exists>result console.
      deserializeChipInputFormat randomUUID clipboardData = Inr (result, console)) \<and>
   (\<exists>result console.
      deserializePlainTextFallback randomUUID clipboardData = Inr (result, console)) \<and>
   deserialize randomUUID (lit ''__CHIPINPUT__:invalid json'') =
     Inr (None, [Error_FailedToParse SyntaxError]) \<and>
   deserialize randomUUID (CLIPBOARD_MARKER @ lit ''{'' @ QuoteJSONString (lit ''version'') @ lit '':1,''
       @ QuoteJSONString (lit ''chips'') @ lit '':[null]}'') =
     Inr (None, [Error_FailedToParse TypeError])"
proof -
  have a: "\<exists>r. deserializeChipInputFormat randomUUID clipboardData = Inr r"
    unfolding deserializeChipInputFormat_def by (rule try_catch_returns) simp
  have b: "\<exists>r. deserializePlainTextFallback randomUUID clipboardData = Inr r"
    unfolding deserializePlainTextFallback_def by (rule try_catch_returns) simp
  have c: "\<exists>r. deserialize randomUUID clipboardData = Inr r"
    using a b by (simp add: deserialize_def)
  have d: "deserialize randomUUID (lit ''__CHIPINPUT__:invalid json'') =
     Inr (None, [Error_FailedToParse SyntaxError])"
    by (simp add: eval_defs)
  have e: "deserialize randomUUID (CLIPBOARD_MARKER @ lit ''{'' @ QuoteJSONString (lit ''version'') @ lit '':1,''
       @ QuoteJSONString (lit ''chips'') @ lit '':[null]}'') =
     Inr (None, [Error_FailedToParse TypeError])"
    by (simp add: eval_defs)
  from a b c d e show ?thesis by simp
qed


subsection \<open>The unsupported version\<close>

lemma deserialize_marked:
  "prefix CLIPBOARD_MARKER s \<Longrightarrow> deserialize u s = deserializeChipInputFormat u s"
  by (simp add: deserialize_def)

lemma returned_Inr [simp]: "returned (Inr (result, written)) = Inr result"
  by (simp add: returned_def)

lemma logged_Inr [simp]: "logged (Inr (result, written)) = Inr written"
  by (simp add: logged_def)

lemma warned_unsupported:
  assumes "prefix CLIPBOARD_MARKER s"
    and "logged (deserialize u s) = Inr [Warn_UnsupportedVersion v]"
  shows "\<exists>data x elements. JSON_parse (payload s) = Inr data \<and> expected_shape data x elements \<and>
           \<not> is_CLIPBOARD_VERSION x \<and> v = JNum x"
  using assms(2)
  by (auto simp: deserialize_marked [OF assms(1)] deserializeChipInputFormat_def
        payload_def [symmetric] try_catch_def expected_shape_def
        split: sum.splits jsval.splits if_splits)

text \<open>
  Claim C8, as stated: a marked text whose payload is JSON of the expected shape with a version
  that is a number other than 1 fails, and the caller can tell this failure from that of a
  malformed payload. The caller receives what \<open>deserialize\<close> returns, and that is \<open>null\<close> for
  both: for the JSON of \<open>{version: 999, chips: []}\<close> and for \<open>invalid json\<close> the returned values
  are equal.
\<close>

theorem unsupported_version_counterexample:
  "prefix CLIPBOARD_MARKER (CLIPBOARD_MARKER @ lit ''{'' @ QuoteJSONString (lit ''version'')
     @ lit '':999,'' @ QuoteJSONString (lit ''chips'') @ lit '':[]}'') \<and>
   JSON_parse (payload (CLIPBOARD_MARKER @ lit ''{'' @ QuoteJSONString (lit ''version'')
     @ lit '':999,'' @ QuoteJSONString (lit ''chips'') @ lit '':[]}'')) =
     Inr (JObj [(lit ''version'', JNum 999), (lit ''chips'', JArr [])]) \<and>
   expected_shape (JObj [(lit ''version'', JNum 999), (lit ''chips'', JArr [])]) 999 [] \<and>
   \<not> is_CLIPBOARD_VERSION 999 \<and>
   prefix CLIPBOARD_MARKER (lit ''__CHIPINPUT__:invalid json'') \<and>
   JSON_parse (payload (lit ''__CHIPINPUT__:invalid json'')) = Inl SyntaxError \<and>
   returned (deserialize uuids (CLIPBOARD_MARKER @ lit ''{'' @ QuoteJSONString (lit ''version'')
     @ lit '':999,'' @ QuoteJSONString (lit ''chips'') @ lit '':[]}'')) = Inr None \<and>
   returned (deserialize uuids (lit ''__CHIPINPUT__:invalid json'')) = Inr None \<and>
   returned (deserialize uuids (CLIPBOARD_MARKER @ lit ''{'' @ QuoteJSONString (lit ''version'')
     @ lit '':999,'' @ QuoteJSONString (lit ''chips'') @ lit '':[]}'')) =
     returned (deserialize uuids (lit ''__CHIPINPUT__:invalid json''))"
  by (simp add: eval_defs payload_def expected_shape_def)

text \<open>
  Claim C8, amended: on a marked text whose payload is JSON of the expected shape with a version
  that is a number other than 1, \<open>deserialize\<close> returns \<open>null\<close> and warns of the unsupported
  version, with the version found. The returned value is the \<open>null\<close> of every other failure, so
  the caller cannot tell the condition from a malformed payload; it can be told in the console
  only. There a payload that is not JSON leaves the error of the parser and a payload
  of another shape leaves nothing, and the warning of the unsupported version is written for
  the texts of that condition and for no other marked text.
\<close>

theorem unsupported_version:
  assumes "prefix CLIPBOARD_MARKER s" and "prefix CLIPBOARD_MARKER s'"
  shows "(JSON_parse (payload s) = Inr data \<and> expected_shape data x elements \<and>
          \<not> is_CLIPBOARD_VERSION x \<longrightarrow>
            deserialize u s = Inr (None, [Warn_UnsupportedVersion (JNum x)])) \<and>
         (JSON_parse (payload s) = Inl error \<longrightarrow>
            deserialize u s = Inr (None, [Error_FailedToParse error])) \<and>
         (JSON_parse (payload s) = Inr data \<and> (\<forall>x elements. \<not> expected_shape data x elements)
            \<longrightarrow> deserialize u s = Inr (None, [])) \<and>
         (logged (deserialize u s) = Inr [Warn_UnsupportedVersion v] \<longleftrightarrow>
            (\<exists>data x elements. JSON_parse (payload s) = Inr data \<and>
               expected_shape data x elements \<and> \<not> is_CLIPBOARD_VERSION x \<and> v = JNum x)) \<and>
         (JSON_parse (payload s) = Inr data \<and> expected_shape data x elements \<and>
          \<not> is_CLIPBOARD_VERSION x \<and>
          (JSON_parse (payload s') = Inl error \<or>
           JSON_parse (payload s') = Inr data' \<and>
             (\<forall>x elements. \<not> expected_shape data' x elements)) \<longrightarrow>
            returned (deserialize u s) = Inr None \<and>
            returned (deserialize u' s') = returned (deserialize u s) \<and>
            logged (deserialize u' s') \<noteq> logged (deserialize u s))"
proof -
  have unsupported: "deserialize u s = Inr (None, [Warn_UnsupportedVersion (JNum x)])"
    if "prefix CLIPBOARD_MARKER s" "JSON_parse (payload s) = Inr data"
      "expected_shape data x elements" "\<not> is_CLIPBOARD_VERSION x"
    for s data x elements
    using that
    by (simp add: deserialize_marked deserializeChipInputFormat_def
        payload_def [symmetric] expected_shape_def try_catch_def)
  have unparsed: "deserialize u s = Inr (None, [Error_FailedToParse error])"
    if "prefix CLIPBOARD_MARKER s" "JSON_parse (payload s) = Inl error" for u s error
    using that
    by (simp add: deserialize_marked deserializeChipInputFormat_def
        payload_def [symmetric] try_catch_def)
  have misshapen: "deserialize u s = Inr (None, [])"
    if m: "prefix CLIPBOARD_MARKER s" and p: "JSON_parse (payload s) = Inr data"
      and a: "\<forall>x elements. \<not> expected_shape data x elements" for u s data
  proof -
    from a have n: "\<not> truthy data \<or>
        (\<forall>x elements. \<not> (get_property data (lit ''version'') = Inr (JNum x) \<and>
           get_property data (lit ''chips'') = Inr (JArr elements)))"
      by (auto simp: expected_shape_def)
    have t: "get_property data k \<noteq> Inl e" if "truthy data" for k e
      using that by (cases data) (simp_all add: truthy_def get_property_def)
    show ?thesis
      using p n t
      by (auto simp: deserialize_marked [OF m] deserializeChipInputFormat_def
          payload_def [symmetric] try_catch_def split: sum.splits jsval.splits)
  qed
  have warned: "\<exists>data x elements. JSON_parse (payload s) = Inr data \<and>
      expected_shape data x elements \<and> \<not> is_CLIPBOARD_VERSION x \<and> v = JNum x"
    if "logged (deserialize u s) = Inr [Warn_UnsupportedVersion v]"
    using that assms(1) by (rule warned_unsupported [rotated])
  have c1: "JSON_parse (payload s) = Inr data \<and> expected_shape data x elements \<and>
          \<not> is_CLIPBOARD_VERSION x \<longrightarrow>
            deserialize u s = Inr (None, [Warn_UnsupportedVersion (JNum x)])"
    using unsupported [OF assms(1)] by blast
  have c2: "JSON_parse (payload s) = Inl error \<longrightarrow>
            deserialize u s = Inr (None, [Error_FailedToParse error])"
    using unparsed [OF assms(1)] by blast
  have c3: "JSON_parse (payload s) = Inr data \<and> (\<forall>x elements. \<not> expected_shape data x elements)
            \<longrightarrow> deserialize u s = Inr (None, [])"
    using misshapen [OF assms(1)] by blast
  have c4: "logged (deserialize u s) = Inr [Warn_UnsupportedVersion v] \<longleftrightarrow>
            (\<exists>data x elements. JSON_parse (payload s) = Inr data \<and>
               expected_shape data x elements \<and> \<not> is_CLIPBOARD_VERSION x \<and> v = JNum x)"
  proof
    assume "logged (deserialize u s) = Inr [Warn_UnsupportedVersion v]"
    then show "\<exists>data x elements. JSON_parse (payload s) = Inr data \<and>
               expected_shape data x elements \<and> \<not> is_CLIPBOARD_VERSION x \<and> v = JNum x"
      by (rule warned)
  next
    assume "\<exists>data x elements. JSON_parse (payload s) = Inr data \<and>
               expected_shape data x elements \<and> \<not> is_CLIPBOARD_VERSION x \<and> v = JNum x"
    then obtain data x elements where "JSON_parse (payload s) = Inr data"
      "expected_shape data x elements" "\<not> is_CLIPBOARD_VERSION x" "v = JNum x"
      by blast
    then show "logged (deserialize u s) = Inr [Warn_UnsupportedVersion v]"
      using unsupported [OF assms(1)] by simp
  qed
  have c5: "JSON_parse (payload s) = Inr data \<and> expected_shape data x elements \<and>
          \<not> is_CLIPBOARD_VERSION x \<and>
          (JSON_parse (payload s') = Inl error \<or>
           JSON_parse (payload s') = Inr data' \<and>
             (\<forall>x elements. \<not> expected_shape data' x elements)) \<longrightarrow>
            returned (deserialize u s) = Inr None \<and>
            returned (deserialize u' s') = returned (deserialize u s) \<and>
            logged (deserialize u' s') \<noteq> logged (deserialize u s)"
  proof (intro impI, elim conjE)
    assume "JSON_parse (payload s) = Inr data" "expected_shape data x elements"
      "\<not> is_CLIPBOARD_VERSION x"
    then have a: "deserialize u s = Inr (None, [Warn_UnsupportedVersion (JNum x)])"
      by (rule unsupported [OF assms(1)])
    assume "JSON_parse (payload s') = Inl error \<or>
           JSON_parse (payload s') = Inr data' \<and>
             (\<forall>x elements. \<not> expected_shape data' x elements)"
    then have "deserialize u' s' = Inr (None, [Error_FailedToParse error]) \<or>
        deserialize u' s' = Inr (None, [])"
      using unparsed [OF assms(2)] misshapen [OF assms(2)] by blast
    with a show "returned (deserialize u s) = Inr None \<and>
            returned (deserialize u' s') = returned (deserialize u s) \<and>
            logged (deserialize u' s') \<noteq> logged (deserialize u s)"
      by auto
  qed
  from c1 c2 c3 c4 c5 show ?thesis by (intro conjI)
qed

text \<open>
  The marker followed by the JSON of \<open>{version: 999, chips: []}\<close> is an unsupported version;
  \<open>invalid json\<close> and a \<open>chips\<close> that is a string are malformed. The three return \<open>null\<close> and
  differ in the console.
\<close>

theorem unsupported_version_witness:
  "prefix CLIPBOARD_MARKER (CLIPBOARD_MARKER @ lit ''{'' @ QuoteJSONString (lit ''version'')
     @ lit '':999,'' @ QuoteJSONString (lit ''chips'') @ lit '':[]}'') \<and>
   JSON_parse (payload (CLIPBOARD_MARKER @ lit ''{'' @ QuoteJSONString (lit ''version'')
     @ lit '':999,'' @ QuoteJSONString (lit ''chips'') @ lit '':[]}'')) =
     Inr (JObj [(lit ''version'', JNum 999), (lit ''chips'', JArr [])]) \<and>
   expected_shape (JObj [(lit ''version'', JNum 999), (lit ''chips'', JArr [])]) 999 [] \<and>
   \<not> is_CLIPBOARD_VERSION 999 \<and>
   deserialize uuids (CLIPBOARD_MARKER @ lit ''{'' @ QuoteJSONString (lit ''version'')
     @ lit '':999,'' @ QuoteJSONString (lit ''chips'') @ lit '':[]}'') =
     Inr (None, [Warn_UnsupportedVersion (JNum 999)]) \<and>
   logged (deserialize uuids (CLIPBOARD_MARKER @ lit ''{'' @ QuoteJSONString (lit ''version'')
     @ lit '':999,'' @ QuoteJSONString (lit ''chips'') @ lit '':[]}'')) =
     Inr [Warn_UnsupportedVersion (JNum 999)] \<and>
   returned (deserialize uuids (CLIPBOARD_MARKER @ lit ''{'' @ QuoteJSONString (lit ''version'')
     @ lit '':999,'' @ QuoteJSONString (lit ''chips'') @ lit '':[]}'')) = Inr None \<and>
   prefix CLIPBOARD_MARKER (lit ''__CHIPINPUT__:invalid json'') \<and>
   JSON_parse (payload (lit ''__CHIPINPUT__:invalid json'')) = Inl SyntaxError \<and>
   deserialize uuids (lit ''__CHIPINPUT__:invalid json'') =
     Inr (None, [Error_FailedToParse SyntaxError]) \<and>
   returned (deserialize uuids (lit ''__CHIPINPUT__:invalid json'')) =
     returned (deserialize uuids (CLIPBOARD_MARKER @ lit ''{'' @ QuoteJSONString (lit ''version'')
     @ lit '':999,'' @ QuoteJSONString (lit ''chips'') @ lit '':[]}'')) \<and>
   logged (deserialize uuids (lit ''__CHIPINPUT__:invalid json'')) \<noteq>
     logged (deserialize uuids (CLIPBOARD_MARKER @ lit ''{'' @ QuoteJSONString (lit ''version'')
     @ lit '':999,'' @ QuoteJSONString (lit ''chips'') @ lit '':[]}'')) \<and>
   prefix CLIPBOARD_MARKER (CLIPBOARD_MARKER @ lit ''{'' @ QuoteJSONString (lit ''version'')
     @ lit '':1,'' @ QuoteJSONString (lit ''chips'') @ lit '':'' @ QuoteJSONString (lit ''not-an-array'')
     @ lit ''}'') \<and>
   JSON_parse (payload (CLIPBOARD_MARKER @ lit ''{'' @ QuoteJSONString (lit ''version'')
     @ lit '':1,'' @ QuoteJSONString (lit ''chips'') @ lit '':'' @ QuoteJSONString (lit ''not-an-array'')
     @ lit ''}'')) =
     Inr (JObj [(lit ''version'', JNum 1), (lit ''chips'', JStr (lit ''not-an-array''))]) \<and>
   deserialize uuids (CLIPBOARD_MARKER @ lit ''{'' @ QuoteJSONString (lit ''version'')
     @ lit '':1,'' @ QuoteJSONString (lit ''chips'') @ lit '':'' @ QuoteJSONString (lit ''not-an-array'')
     @ lit ''}'') = Inr (None, []) \<and>
   returned (deserialize uuids (CLIPBOARD_MARKER @ lit ''{'' @ QuoteJSONString (lit ''version'')
     @ lit '':1,'' @ QuoteJSONString (lit ''chips'') @ lit '':'' @ QuoteJSONString (lit ''not-an-array'')
     @ lit ''}'')) =
     returned (deserialize uuids (CLIPBOARD_MARKER @ lit ''{'' @ QuoteJSONString (lit ''version'')
     @ lit '':999,'' @ QuoteJSONString (lit ''chips'') @ lit '':[]}'')) \<and>
   logged (deserialize uuids (CLIPBOARD_MARKER @ lit ''{'' @ QuoteJSONString (lit ''version'')
     @ lit '':1,'' @ QuoteJSONString (lit ''chips'') @ lit '':'' @ QuoteJSONString (lit ''not-an-array'')
     @ lit ''}'')) \<noteq>
     logged (deserialize uuids (CLIPBOARD_MARKER @ lit ''{'' @ QuoteJSONString (lit ''version'')
     @ lit '':999,'' @ QuoteJSONString (lit ''chips'') @ lit '':[]}''))"
proof -
  let ?s = "CLIPBOARD_MARKER @ lit ''{'' @ QuoteJSONString (lit ''version'')
     @ lit '':999,'' @ QuoteJSONString (lit ''chips'') @ lit '':[]}''"
  let ?t = "lit ''__CHIPINPUT__:invalid json''"
  let ?w = "CLIPBOARD_MARKER @ lit ''{'' @ QuoteJSONString (lit ''version'')
     @ lit '':1,'' @ QuoteJSONString (lit ''chips'') @ lit '':'' @ QuoteJSONString (lit ''not-an-array'')
     @ lit ''}''"
  let ?d = "JObj [(lit ''version'', JNum 999), (lit ''chips'', JArr [])]"
  let ?dw = "JObj [(lit ''version'', JNum 1), (lit ''chips'', JStr (lit ''not-an-array''))]"
  have s1: "prefix CLIPBOARD_MARKER ?s" by simp
  have s2: "JSON_parse (payload ?s) = Inr ?d"
    by (simp add: eval_defs payload_def)
  have s3: "expected_shape ?d 999 []"
    by (simp add: eval_defs expected_shape_def)
  have s4: "\<not> is_CLIPBOARD_VERSION 999" by (simp add: is_CLIPBOARD_VERSION_def)
  have t1: "prefix CLIPBOARD_MARKER ?t" by (simp add: CLIPBOARD_MARKER_def lit_def)
  have t2: "JSON_parse (payload ?t) = Inl SyntaxError"
    by (simp add: eval_defs payload_def)
  have w1: "prefix CLIPBOARD_MARKER ?w" by simp
  have w2: "JSON_parse (payload ?w) = Inr ?dw"
    by (simp add: eval_defs payload_def)
  have w3: "\<forall>x elements. \<not> expected_shape ?dw x elements"
    by (simp add: eval_defs expected_shape_def)
  note st = unsupported_version [OF s1 t1, of ?d 999 "[]" uuids SyntaxError "JNum 999" _ uuids]
  note sw = unsupported_version [OF s1 w1, of ?d 999 "[]" uuids _ _ ?dw uuids]
  note ts = unsupported_version [OF t1 s1, of _ _ _ uuids SyntaxError]
  note ws = unsupported_version [OF w1 s1, of ?dw _ _ uuids]
  from st s2 s3 s4
  have a: "deserialize uuids ?s = Inr (None, [Warn_UnsupportedVersion (JNum 999)])" by blast
  from st s2 s3 s4
  have a': "logged (deserialize uuids ?s) = Inr [Warn_UnsupportedVersion (JNum 999)]" by blast
  from st s2 s3 s4 t2
  have b: "returned (deserialize uuids ?s) = Inr None \<and>
      returned (deserialize uuids ?t) = returned (deserialize uuids ?s) \<and>
      logged (deserialize uuids ?t) \<noteq> logged (deserialize uuids ?s)" by blast
  from sw s2 s3 s4 w2 w3
  have c: "returned (deserialize uuids ?w) = returned (deserialize uuids ?s) \<and>
      logged (deserialize uuids ?w) \<noteq> logged (deserialize uuids ?s)" by blast
  from ts t2
  have d: "deserialize uuids ?t = Inr (None, [Error_FailedToParse SyntaxError])" by blast
  from ws w2 w3
  have e: "deserialize uuids ?w = Inr (None, [])" by blast
  from s1 s2 s3 s4 a a' b t1 t2 d w1 w2 e c show ?thesis by (intro conjI) blast+
qed


subsection \<open>The plain-text fallback\<close>

lemma split_on_nonempty: "split_on sep s \<noteq> []"
  by (induction s) (simp_all split: list.split)

lemma join_split_on: "join [sep] (split_on sep s) = s"
proof (induction s)
  case Nil
  show ?case by simp
next
  case (Cons c s)
  obtain seg segs where s: "split_on sep s = seg # segs"
    using split_on_nonempty [of sep s] by (cases "split_on sep s") auto
  with Cons show ?case
    by (cases segs) (auto simp: join_Cons)
qed

lemma split_on_free: "seg \<in> set (split_on sep s) \<Longrightarrow> sep \<notin> set seg"
proof (induction s arbitrary: seg)
  case Nil
  then show ?case by simp
next
  case (Cons c s)
  obtain x xs where s: "split_on sep s = x # xs"
    using split_on_nonempty [of sep s] by (cases "split_on sep s") auto
  with Cons show ?case
    by (auto split: if_splits)
qed

lemma trim_spec:
  "\<exists>a b. l = a @ trim l @ b \<and> list_all is_white_space a \<and> list_all is_white_space b \<and>
     (trim l = [] \<or> (\<not> is_white_space (hd (trim l)) \<and> \<not> is_white_space (last (trim l))))"
proof -
  let ?a = "takeWhile is_white_space l"
  let ?m = "dropWhile is_white_space l"
  let ?b = "rev (takeWhile is_white_space (rev ?m))"
  have t: "trim l = rev (dropWhile is_white_space (rev ?m))"
    by (simp add: trim_def)
  have "rev (takeWhile is_white_space (rev ?m) @ dropWhile is_white_space (rev ?m)) = ?m"
    by (simp only: takeWhile_dropWhile_id rev_rev_ident)
  then have m: "?m = trim l @ ?b"
    by (simp only: rev_append t)
  have l: "l = ?a @ trim l @ ?b"
    using m takeWhile_dropWhile_id [of is_white_space l] by simp
  have wa: "list_all is_white_space ?a"
    by (simp add: list_all_iff) (meson set_takeWhileD)
  have wb: "list_all is_white_space ?b"
    by (simp add: list_all_iff) (meson set_takeWhileD)
  have e: "\<not> is_white_space (hd (trim l)) \<and> \<not> is_white_space (last (trim l))" if n: "trim l \<noteq> []"
  proof
    have "?m \<noteq> []" by (metis m n append_is_Nil_conv)
    then have "\<not> is_white_space (hd ?m)" by (rule hd_dropWhile)
    moreover have "hd ?m = hd (trim l)" using m n by (metis hd_append2)
    ultimately show "\<not> is_white_space (hd (trim l))" by simp
    have d: "dropWhile is_white_space (rev ?m) \<noteq> []" by (metis n t rev_is_Nil_conv)
    then have "\<not> is_white_space (hd (dropWhile is_white_space (rev ?m)))" by (rule hd_dropWhile)
    moreover have "last (trim l) = hd (dropWhile is_white_space (rev ?m))"
      using d by (simp add: t last_rev)
    ultimately show "\<not> is_white_space (last (trim l))" by simp
  qed
  from l wa wb e show ?thesis by blast
qed

lemma deserialize_plain:
  "\<not> prefix CLIPBOARD_MARKER s \<Longrightarrow> deserialize u s = deserializePlainTextFallback u s"
  by (simp add: deserialize_def)

text \<open>
  Claim C9: a text without the marker is split at every comma (the segments hold no comma,
  and joined with commas they give the text back), each segment is trimmed (it loses the
  white space at both ends and nothing else), and the empty ones are dropped. If no label
  remains, \<open>deserialize\<close> returns \<open>null\<close>; otherwise it returns one new token for each
  label, in order, with the label as its label and as its value.
\<close>

theorem plain_text_fallback:
  assumes "\<not> prefix CLIPBOARD_MARKER s"
  shows "join [0x2C] (split_on 0x2C s) = s \<and>
         (\<forall>seg \<in> set (split_on 0x2C s). 0x2C \<notin> set seg) \<and>
         (\<forall>seg. \<exists>a b. seg = a @ trim seg @ b \<and>
            list_all is_white_space a \<and> list_all is_white_space b \<and>
            (trim seg = [] \<or>
             (\<not> is_white_space (hd (trim seg)) \<and> \<not> is_white_space (last (trim seg))))) \<and>
         fallback_labels s = filter (\<lambda>l. l \<noteq> []) (map trim (split_on 0x2C s)) \<and>
         (fallback_labels s = [] \<longrightarrow> deserialize u s = Inr (None, [])) \<and>
         (fallback_labels s \<noteq> [] \<longrightarrow>
            deserialize u s =
              Inr (Some (map (\<lambda>(n, l). pasted u n l l) (enumerate 0 (fallback_labels s))), []))"
proof (intro conjI allI)
  show "join [0x2C] (split_on 0x2C s) = s"
    by (rule join_split_on)
  show "\<forall>seg \<in> set (split_on 0x2C s). 0x2C \<notin> set seg"
    by (simp add: split_on_free)
  show "\<exists>a b. seg = a @ trim seg @ b \<and>
      list_all is_white_space a \<and> list_all is_white_space b \<and>
      (trim seg = [] \<or>
       (\<not> is_white_space (hd (trim seg)) \<and> \<not> is_white_space (last (trim seg))))" for seg
    by (rule trim_spec)
  show "fallback_labels s = filter (\<lambda>l. l \<noteq> []) (map trim (split_on 0x2C s))"
    by (simp add: fallback_labels_def)
  show "fallback_labels s = [] \<longrightarrow> deserialize u s = Inr (None, [])"
    by (simp add: deserialize_plain [OF assms] deserializePlainTextFallback_def try_catch_def
        fallback_labels_def)
  show "fallback_labels s \<noteq> [] \<longrightarrow>
      deserialize u s =
        Inr (Some (map (\<lambda>(n, l). pasted u n l l) (enumerate 0 (fallback_labels s))), [])"
    by (simp add: deserialize_plain [OF assms] deserializePlainTextFallback_def try_catch_def
        fallback_labels_def pasted_def)
qed

text \<open>
  \<open>React, TypeScript, Vite\<close> gives three tokens with these labels; the empty text and
  \<open>,,,,\<close> give \<open>null\<close>.
\<close>

theorem plain_text_fallback_witness:
  "\<not> prefix CLIPBOARD_MARKER (lit ''React, TypeScript, Vite'') \<and>
   fallback_labels (lit ''React, TypeScript, Vite'') =
     [lit ''React'', lit ''TypeScript'', lit ''Vite''] \<and>
   deserialize uuids (lit ''React, TypeScript, Vite'') =
     Inr (Some [pasted uuids 0 (lit ''React'') (lit ''React''),
                pasted uuids 1 (lit ''TypeScript'') (lit ''TypeScript''),
                pasted uuids 2 (lit ''Vite'') (lit ''Vite'')], []) \<and>
   \<not> prefix CLIPBOARD_MARKER (lit '''') \<and> fallback_labels (lit '''') = [] \<and>
   deserialize uuids (lit '''') = Inr (None, []) \<and>
   \<not> prefix CLIPBOARD_MARKER (lit '',,,,'') \<and> fallback_labels (lit '',,,,'') = [] \<and>
   deserialize uuids (lit '',,,,'') = Inr (None, [])"
proof -
  have r1: "\<not> prefix CLIPBOARD_MARKER (lit ''React, TypeScript, Vite'')"
    by (simp add: CLIPBOARD_MARKER_def lit_def)
  have r2: "fallback_labels (lit ''React, TypeScript, Vite'') =
      [lit ''React'', lit ''TypeScript'', lit ''Vite'']"
    by (simp add: fallback_labels_def trim_def is_white_space_def lit_def)
  have e1: "\<not> prefix CLIPBOARD_MARKER (lit '''')"
    by (simp add: CLIPBOARD_MARKER_def lit_def)
  have e2: "fallback_labels (lit '''') = []"
    by (simp add: fallback_labels_def trim_def lit_def)
  have c1: "\<not> prefix CLIPBOARD_MARKER (lit '',,,,'')"
    by (simp add: CLIPBOARD_MARKER_def lit_def)
  have c2: "fallback_labels (lit '',,,,'') = []"
    by (simp add: fallback_labels_def trim_def lit_def)
  have r3: "deserialize uuids (lit ''React, TypeScript, Vite'') =
     Inr (Some [pasted uuids 0 (lit ''React'') (lit ''React''),
                pasted uuids 1 (lit ''TypeScript'') (lit ''TypeScript''),
                pasted uuids 2 (lit ''Vite'') (lit ''Vite'')], [])"
    using plain_text_fallback [OF r1, of uuids] by (simp add: r2 enumerate_eq_zip upt_rec numeral_2_eq_2)
  have e3: "deserialize uuids (lit '''') = Inr (None, [])"
    using plain_text_fallback [OF e1, of uuids] e2 by simp
  have c3: "deserialize uuids (lit '',,,,'') = Inr (None, [])"
    using plain_text_fallback [OF c1, of uuids] c2 by simp
  from r1 r2 r3 e1 e2 e3 c1 c2 c3 show ?thesis by (intro conjI)
qed

subsection \<open>The empty case\<close>

text \<open>
  Claim C10: the two paths treat emptiness differently. A marked payload of version 1 whose
  \<open>chips\<close> array is empty is a success with no token, as is the encoding of the empty list;
  a text without the marker in which no label remains is a failure.
\<close>

theorem empty_asymmetry:
  "deserialize u (serialize []) = Inr (Some [], []) \<and>
   (prefix CLIPBOARD_MARKER s \<and> JSON_parse (payload s) = Inr data \<and>
    expected_shape data x [] \<and> is_CLIPBOARD_VERSION x \<longrightarrow>
      deserialize u s = Inr (Some [], [])) \<and>
   (\<not> prefix CLIPBOARD_MARKER t \<and> fallback_labels t = [] \<longrightarrow>
      deserialize u t = Inr (None, []))"
proof (intro conjI impI)
  show "deserialize u (serialize []) = Inr (Some [], [])"
    by (simp add: deserialize_serialize)
next
  assume "prefix CLIPBOARD_MARKER s \<and> JSON_parse (payload s) = Inr data \<and>
    expected_shape data x [] \<and> is_CLIPBOARD_VERSION x"
  then show "deserialize u s = Inr (Some [], [])"
    by (simp add: deserialize_def deserializeChipInputFormat_def payload_def [symmetric]
        expected_shape_def try_catch_def)
next
  assume "\<not> prefix CLIPBOARD_MARKER t \<and> fallback_labels t = []"
  then show "deserialize u t = Inr (None, [])"
    by (simp add: deserialize_def deserializePlainTextFallback_def try_catch_def
        fallback_labels_def)
qed

text \<open>The encoding of the empty list against the text \<open>,,,,\<close>.\<close>

theorem empty_asymmetry_witness:
  "prefix CLIPBOARD_MARKER (serialize []) \<and>
   JSON_parse (payload (serialize [])) =
     Inr (JObj [(lit ''version'', JNum 1), (lit ''chips'', JArr [])]) \<and>
   expected_shape (JObj [(lit ''version'', JNum 1), (lit ''chips'', JArr [])]) 1 [] \<and>
   is_CLIPBOARD_VERSION 1 \<and>
   deserialize uuids (serialize []) = Inr (Some [], []) \<and>
   \<not> prefix CLIPBOARD_MARKER (lit '',,,,'') \<and> fallback_labels (lit '',,,,'') = [] \<and>
   deserialize uuids (lit '',,,,'') = Inr (None, [])"
proof -
  have a1: "prefix CLIPBOARD_MARKER (serialize [])"
    by (simp add: serialize_def)
  have a2: "JSON_parse (payload (serialize [])) =
     Inr (JObj [(lit ''version'', JNum 1), (lit ''chips'', JArr [])])"
    by (simp add: serialize_def payload_def slice_marker JSON_parse_stringify
        CLIPBOARD_VERSION_def data_jsval_def)
  have a3: "expected_shape (JObj [(lit ''version'', JNum 1), (lit ''chips'', JArr [])]) 1 []"
    by (simp add: eval_defs expected_shape_def)
  have a4: "is_CLIPBOARD_VERSION 1"
    by (simp add: is_CLIPBOARD_VERSION_def)
  have b1: "\<not> prefix CLIPBOARD_MARKER (lit '',,,,'')"
    by (simp add: CLIPBOARD_MARKER_def lit_def)
  have b2: "fallback_labels (lit '',,,,'') = []"
    by (simp add: fallback_labels_def trim_def lit_def)
  from empty_asymmetry [of uuids "serialize []" _ 1 "lit '',,,,''"] a1 a2 a3 a4 b1 b2
  have "deserialize uuids (serialize []) = Inr (Some [], [])"
    and "deserialize uuids (lit '',,,,'') = Inr (None, [])"
    by blast+
  with a1 a2 a3 a4 b1 b2 show ?thesis by (intro conjI)
qed

end
